theory Spec2Isabelle
  imports Main "HOL-Library.Multiset" "HOL-Library.AList"
begin

section \<open>Errors\<close>

text \<open>
  Every exception the two modelled functions of \<^verbatim>\<open>wolverine.py\<close> can raise is a value.
  \<^item> \<open>ExhaustedRetries\<close>: \<^verbatim>\<open>raise Exception("No valid JSON response found.")\<close>, the
    statement after the retry loop of \<^verbatim>\<open>json_validated_response\<close>;
  \<^item> \<open>TransportFailure e\<close>: an exception \<open>e\<close> coming out of the chat call;
  \<^item> \<open>KeyError k\<close>: a dictionary subscript \<^verbatim>\<open>change[k]\<close> on a missing key;
  \<^item> \<open>IndexError\<close>: a list subscript out of range;
  \<^item> \<open>OverflowError\<close>: a position handed to \<^verbatim>\<open>list.insert\<close> that does not fit a
    machine index;
  \<^item> \<open>FileNotFoundError\<close>: \<^verbatim>\<open>open(file_path)\<close> on a missing file;
  \<^item> \<open>SystemExit n\<close>: \<^verbatim>\<open>sys.exit(n)\<close>.
\<close>

datatype error =
    ExhaustedRetries
  | TransportFailure string
  | KeyError string
  | IndexError
  | OverflowError
  | FileNotFoundError
  | SystemExit int

section \<open>The patch engine: \<^verbatim>\<open>apply_changes\<close>\<close>

text \<open>
  \<^verbatim>\<open>apply_changes\<close> is the same function in \<^verbatim>\<open>wolverine/wolverine.py\<close> and in
  \<^verbatim>\<open>tests/test_wolverine.py\<close> (up to the wording of two messages), so one model serves both.
\<close>

subsection \<open>Data\<close>

text \<open>
  One element of \<^verbatim>\<open>changes\<close> is a JSON object. The code looks at four keys; each may be
  absent (\<open>None\<close>). The values are typed as the response format has them: a string
  for \<^verbatim>\<open>operation\<close>, \<^verbatim>\<open>content\<close> and \<^verbatim>\<open>explanation\<close>, an integer for \<^verbatim>\<open>line\<close>
  (Python integers are unbounded, hence \<open>int\<close>). Objects with values of other
  types are outside this model.
\<close>

record change =
  operation :: "string option"
  line :: "int option"
  content :: "string option"
  explanation :: "string option"

text \<open>The one-character string \<^verbatim>\<open>"\n"\<close>.\<close>

definition nl :: string where
  "nl = [CHR 0x0A]"

subsection \<open>Python list primitives\<close>

text \<open>
  A subscript \<open>i\<close> on a list of length \<open>n\<close> is valid for \<open>- n \<le> i < n\<close>; a negative
  one counts from the end. Anything else raises \<^verbatim>\<open>IndexError\<close>; that includes an
  integer too large for a machine index, which a subscript reports as \<^verbatim>\<open>IndexError\<close>
  too (\<^verbatim>\<open>cannot fit 'int' into an index-sized integer\<close>).
\<close>

definition py_index :: "'a list \<Rightarrow> int \<Rightarrow> nat option" where
  "py_index xs i =
     (let n = int (length xs) in
      if 0 \<le> i \<and> i < n then Some (nat i)
      else if - n \<le> i \<and> i < 0 then Some (nat (i + n))
      else None)"

text \<open>\<^verbatim>\<open>xs[i] = v\<close>\<close>

definition list_setitem :: "'a list \<Rightarrow> int \<Rightarrow> 'a \<Rightarrow> error + 'a list" where
  "list_setitem xs i v =
     (case py_index xs i of
        None \<Rightarrow> Inl IndexError
      | Some k \<Rightarrow> Inr (xs[k := v]))"

text \<open>\<^verbatim>\<open>del xs[i]\<close>\<close>

definition list_delitem :: "'a list \<Rightarrow> int \<Rightarrow> error + 'a list" where
  "list_delitem xs i =
     (case py_index xs i of
        None \<Rightarrow> Inl IndexError
      | Some k \<Rightarrow> Inr (take k xs @ drop (Suc k) xs))"

text \<open>
  The largest machine index, \<^verbatim>\<open>sys.maxsize\<close>, on a 64-bit build of the interpreter.
\<close>

definition ssize_t_max :: int where
  "ssize_t_max = 2 ^ 63 - 1"

text \<open>
  \<^verbatim>\<open>xs.insert(i, v)\<close>. The position is first converted to a machine index: an integer
  outside \<open>- 2^63 .. 2^63 - 1\<close> raises \<^verbatim>\<open>OverflowError\<close>
  (\<^verbatim>\<open>Python int too large to convert to C ssize_t\<close>) and the list stays as it is.
  Otherwise the call does not raise: a negative position counts from the end, and the
  position is then clamped into \<open>0 .. n\<close>.

  A Python list holds fewer than \<open>2^63\<close> elements, a HOL list any number. The overflow
  test is therefore made on the lists that can exist in the interpreter, those of at most
  \<open>ssize_t_max\<close> elements; on these the function is \<^verbatim>\<open>list.insert\<close>. On a longer list,
  which no run of the program can build, the position is clamped without a test.
\<close>

definition list_insert :: "'a list \<Rightarrow> int \<Rightarrow> 'a \<Rightarrow> error + 'a list" where
  "list_insert xs i v =
     (let n = int (length xs) in
      if (i < - ssize_t_max - 1 \<or> ssize_t_max < i) \<and> n \<le> ssize_t_max then Inl OverflowError
      else
        let k = nat (if i < 0 then max 0 (i + n) else min i n)
        in Inr (take k xs @ v # drop k xs))"

subsection \<open>The loop body and the loop\<close>

text \<open>
  The body of \<^verbatim>\<open>for change in operation_changes\<close>. The three subscripts
  \<^verbatim>\<open>change["operation"]\<close>, \<^verbatim>\<open>change["line"]\<close>, \<^verbatim>\<open>change["content"]\<close> are evaluated
  in this order before the branch on the operation, whatever the operation is.
  An operation name other than the three known ones falls through the
  \<^verbatim>\<open>if/elif\<close> chain and leaves the buffer as it is.
\<close>

definition apply_change :: "string list \<Rightarrow> change \<Rightarrow> error + string list" where
  "apply_change file_lines c =
     (case operation c of
        None \<Rightarrow> Inl (KeyError ''operation'')
      | Some opn \<Rightarrow>
     (case line c of
        None \<Rightarrow> Inl (KeyError ''line'')
      | Some ln \<Rightarrow>
     (case content c of
        None \<Rightarrow> Inl (KeyError ''content'')
      | Some cnt \<Rightarrow>
          if opn = ''Replace'' then list_setitem file_lines (ln - 1) (cnt @ nl)
          else if opn = ''Delete'' then list_delitem file_lines (ln - 1)
          else if opn = ''InsertAfter'' then list_insert file_lines ln (cnt @ nl)
          else Inr file_lines)))"

fun apply_ops :: "string list \<Rightarrow> change list \<Rightarrow> error + string list" where
  "apply_ops file_lines [] = Inr file_lines"
| "apply_ops file_lines (c # cs) =
     (case apply_change file_lines c of
        Inl e \<Rightarrow> Inl e
      | Inr file_lines' \<Rightarrow> apply_ops file_lines' cs)"

subsection \<open>Filtering, sorting, patching\<close>

text \<open>\<^verbatim>\<open>[c for c in changes if "operation" in c]\<close>\<close>

definition operation_changes :: "change list \<Rightarrow> change list" where
  "operation_changes changes = filter (\<lambda>c. operation c \<noteq> None) changes"

text \<open>\<^verbatim>\<open>[c["explanation"] for c in changes if "explanation" in c]\<close>\<close>

definition explanations :: "change list \<Rightarrow> string list" where
  "explanations changes = map (\<lambda>c. the (explanation c)) (filter (\<lambda>c. explanation c \<noteq> None) changes)"

text \<open>
  \<^verbatim>\<open>operation_changes.sort(key=lambda x: x["line"], reverse=True)\<close>. The key function
  runs on every element first, so one missing \<^verbatim>\<open>line\<close> raises \<^verbatim>\<open>KeyError\<close>. Python's
  sort is stable also with \<^verbatim>\<open>reverse=True\<close>: elements with equal keys keep their
  order. \<open>sort_key\<close> is a stable ascending insertion sort, here on the negated key.
\<close>

definition sort_by_line_desc :: "change list \<Rightarrow> error + change list" where
  "sort_by_line_desc cs =
     (if None \<in> set (map line cs) then Inl (KeyError ''line'')
      else Inr (sort_key (\<lambda>c. - the (line c)) cs))"

text \<open>
  The buffer computation of \<^verbatim>\<open>apply_changes\<close>, from the lines read to the lines that
  would be written: filter, sort, copy, loop.
\<close>

definition patch_lines :: "string list \<Rightarrow> change list \<Rightarrow> error + string list" where
  "patch_lines original_file_lines changes =
     (case sort_by_line_desc (operation_changes changes) of
        Inl e \<Rightarrow> Inl e
      | Inr sorted_changes \<Rightarrow> apply_ops original_file_lines sorted_changes)"

subsection \<open>The file and the confirmation gate\<close>

text \<open>
  A file is the list of lines that \<^verbatim>\<open>readlines\<close> yields and \<^verbatim>\<open>writelines\<close> receives;
  the file system maps a path to it. \<open>answer\<close> is what the operator types at the
  \<^verbatim>\<open>input\<close> prompt, read only when \<open>confirm\<close> is set.
\<close>

type_synonym fs = "string \<rightharpoonup> string list"

text \<open>
  \<^verbatim>\<open>str.lower\<close> on the ASCII letters (every other character is left as it is: no
  other character lowers to \<^verbatim>\<open>y\<close>, the one string the result is compared with).
\<close>

definition lower_char :: "char \<Rightarrow> char" where
  "lower_char ch =
     (case map_of (zip ''ABCDEFGHIJKLMNOPQRSTUVWXYZ'' ''abcdefghijklmnopqrstuvwxyz'') ch of
        None \<Rightarrow> ch
      | Some l \<Rightarrow> l)"

definition lower :: "string \<Rightarrow> string" where
  "lower s = map lower_char s"

text \<open>
  \<^verbatim>\<open>apply_changes(file_path, changes, confirm)\<close>: the result is the exception raised,
  if any, and the file system afterwards. The only write is the last statement, so
  every exception leaves the file system as it was.
\<close>

definition apply_changes :: "fs \<Rightarrow> string \<Rightarrow> change list \<Rightarrow> bool \<Rightarrow> string \<Rightarrow> (error + unit) \<times> fs" where
  "apply_changes files file_path changes confirm answer =
     (case files file_path of
        None \<Rightarrow> (Inl FileNotFoundError, files)
      | Some original_file_lines \<Rightarrow>
          (case patch_lines original_file_lines changes of
             Inl e \<Rightarrow> (Inl e, files)
           | Inr file_lines \<Rightarrow>
               if confirm \<and> lower answer \<noteq> ''y'' then (Inl (SystemExit 0), files)
               else (Inr (), files(file_path \<mapsto> file_lines))))"

subsection \<open>The batch read against the original numbering\<close>

text \<open>
  The specification describes a batch as simultaneous edits of the original buffer:
  walk the original lines by their 1-based number and consult the operation that
  addresses the number. These definitions follow that description (they are not in
  the source) and are what \<open>patch_lines\<close> is compared with.
\<close>

definition op_at :: "change list \<Rightarrow> int \<Rightarrow> change option" where
  "op_at ops k = find (\<lambda>c. line c = Some k) ops"

definition edit_line :: "change option \<Rightarrow> string \<Rightarrow> string list" where
  "edit_line e l =
     (case e of
        None \<Rightarrow> [l]
      | Some c \<Rightarrow>
          if operation c = Some ''Replace'' then [the (content c) @ nl]
          else if operation c = Some ''Delete'' then []
          else if operation c = Some ''InsertAfter'' then [l, the (content c) @ nl]
          else [l])"

definition simultaneous_upto :: "nat \<Rightarrow> string list \<Rightarrow> change list \<Rightarrow> string list" where
  "simultaneous_upto m original ops =
     concat (map (\<lambda>j. edit_line (op_at ops (int j + 1)) (original ! j)) [0..<m])"

definition apply_simultaneously :: "string list \<Rightarrow> change list \<Rightarrow> string list" where
  "apply_simultaneously original ops = simultaneous_upto (length original) original ops"

section \<open>The response validator: \<^verbatim>\<open>json_validated_response\<close>\<close>

subsection \<open>Data and collaborators\<close>

text \<open>
  One turn of the conversation, the dictionary \<^verbatim>\<open>{"role": r, "content": c}\<close>, is
  \<open>Message r c\<close>. Every turn has both keys, so the join that builds the unused
  \<^verbatim>\<open>full_prompt\<close> cannot raise and is left out.
\<close>

datatype message = Message string string

text \<open>
  What \<^verbatim>\<open>json.loads\<close> returns. A parsed string is its list of code points: an escape
  \<^verbatim>\<open>\uXXXX\<close> can stand for any code point, also one that no character of the text has.
  A float is kept as the numeral it was read from: \<open>JFloat t\<close> stands for the value of
  \<^verbatim>\<open>float(t)\<close>. An object is the list of its items in the order of the dictionary.
\<close>

datatype json =
    JNull
  | JBool bool
  | JInt int
  | JFloat string
  | JString "nat list"
  | JArray "json list"
  | JObject "(nat list \<times> json) list"

text \<open>
  The state the function works on: the caller's list \<^verbatim>\<open>messages\<close>, which the function
  mutates, and the log \<open>sent\<close> of the conversations handed to the model so far, one
  entry for each call of the chat collaborator.
\<close>

record conversation =
  messages :: "message list"
  sent :: "message list list"

text \<open>\<^verbatim>\<open>content.index("[")\<close>: the position of the first occurrence, \<open>None\<close> for \<^verbatim>\<open>ValueError\<close>.\<close>

definition str_index :: "string \<Rightarrow> char \<Rightarrow> nat option" where
  "str_index s ch =
     (if ch \<in> set s then Some (length (takeWhile (\<lambda>x. x \<noteq> ch) s)) else None)"

text \<open>
  The body of the \<^verbatim>\<open>try\<close> block: find the first \<^verbatim>\<open>[\<close>, slice from there to the end, parse.
  \<open>loads\<close> stands for \<^verbatim>\<open>json.loads\<close>, with \<open>None\<close> for the exception it raises; \<open>None\<close>
  as the result is any exception of the block, all caught by \<^verbatim>\<open>except Exception\<close>.
\<close>

definition parse_reply :: "(string \<Rightarrow> json option) \<Rightarrow> string \<Rightarrow> json option" where
  "parse_reply loads reply =
     (case str_index reply CHR ''['' of
        None \<Rightarrow> None
      | Some json_start_index \<Rightarrow> loads (drop json_start_index reply))"

definition correction_request :: message where
  "correction_request =
     Message ''user''
       ''Your response could not be parsed by json.loads. Please restate it as valid pure JSON.''"

subsection \<open>The retry loop of \<^verbatim>\<open>wolverine/wolverine.py\<close>\<close>

text \<open>
  \<open>chat model messages\<close> stands for the two statements
  \<^verbatim>\<open>response = ollama.chat(model=model, messages=messages)\<close> and
  \<^verbatim>\<open>content = response['message']['content']\<close>, which stand before the \<^verbatim>\<open>try\<close>: \<open>Inr\<close>
  is the text of the reply, \<open>Inl e\<close> an exception raised there. One iteration of
  \<^verbatim>\<open>while nb_retry != 0\<close> is one unfolding; the loop may run forever, so the function
  is partial and \<open>None\<close> means that it does not return.
\<close>

partial_function (option) json_validated_response ::
  "(string \<Rightarrow> message list \<Rightarrow> string + string) \<Rightarrow> (string \<Rightarrow> json option) \<Rightarrow> string \<Rightarrow>
   conversation \<Rightarrow> int \<Rightarrow> ((error + json) \<times> conversation) option"
where
  "json_validated_response chat loads model s nb_retry =
     (if nb_retry \<noteq> 0 then
        (case chat model (messages s) of
           Inl e \<Rightarrow> Some (Inl (TransportFailure e), s\<lparr>sent := sent s @ [messages s]\<rparr>)
         | Inr reply \<Rightarrow>
             (case parse_reply loads reply of
                Some json_response \<Rightarrow> Some (Inr json_response, s\<lparr>sent := sent s @ [messages s]\<rparr>)
              | None \<Rightarrow>
                  json_validated_response chat loads model
                    (s\<lparr>messages := messages s @ [correction_request],
                       sent := sent s @ [messages s]\<rparr>)
                    (if nb_retry > 0 then nb_retry - 1 else nb_retry)))
      else Some (Inl ExhaustedRetries, s))"

subsection \<open>The recursive variant of \<^verbatim>\<open>tests/test_wolverine.py\<close>\<close>

definition test_correction_request :: message where
  "test_correction_request =
     Message ''user''
       ''Your response could not be parsed by json.loads. Please restate your last message as pure JSON.''"

text \<open>
  The second file of the repository holds an earlier variant of the function. Here the
  chat call (\<^verbatim>\<open>llama_chat_completion(messages)\<close>, which ignores \<open>model\<close>) is inside the
  \<^verbatim>\<open>try\<close>, the reply is appended as an assistant turn before it is parsed, the counter
  is decremented on every failure, and the retry is a recursive call. An exception of
  the chat call is taken not to be a \<^verbatim>\<open>ValueError\<close>: it reaches \<^verbatim>\<open>except Exception\<close>
  and is raised again. This variant catches \<^verbatim>\<open>JSONDecodeError\<close> and \<^verbatim>\<open>ValueError\<close> only,
  so \<open>None\<close> as the result of \<open>loads\<close> stands for one of these two here.
\<close>

partial_function (option) test_json_validated_response ::
  "(message list \<Rightarrow> string + string) \<Rightarrow> (string \<Rightarrow> json option) \<Rightarrow> string \<Rightarrow>
   conversation \<Rightarrow> int \<Rightarrow> ((error + json) \<times> conversation) option"
where
  "test_json_validated_response llama_chat_completion loads model s nb_retry =
     (if nb_retry \<noteq> 0 then
        (case llama_chat_completion (messages s) of
           Inl e \<Rightarrow> Some (Inl (TransportFailure e), s\<lparr>sent := sent s @ [messages s]\<rparr>)
         | Inr reply \<Rightarrow>
             (case parse_reply loads reply of
                Some json_response \<Rightarrow>
                  Some (Inr json_response,
                        s\<lparr>messages := messages s @ [Message ''assistant'' reply],
                          sent := sent s @ [messages s]\<rparr>)
              | None \<Rightarrow>
                  test_json_validated_response llama_chat_completion loads model
                    (s\<lparr>messages := messages s @ [Message ''assistant'' reply, test_correction_request],
                       sent := sent s @ [messages s]\<rparr>)
                    (nb_retry - 1)))
      else Some (Inl ExhaustedRetries, s))"

subsection \<open>A model of \<^verbatim>\<open>json.loads\<close>\<close>

text \<open>
  Python's \<^verbatim>\<open>json\<close> module is a library, not code of the repository. The validator
  above takes it as the parameter \<open>loads\<close>. This section follows the library's decoder
  (\<^verbatim>\<open>json/decoder.py\<close>, \<^verbatim>\<open>json/scanner.py\<close>) in two layers:
  \<^item> \<open>decode\<close>, the method \<^verbatim>\<open>JSONDecoder.decode\<close> that \<^verbatim>\<open>json.loads\<close> calls, over an
    arbitrary scanner \<open>raw\<close>; the properties of the validator are stated at this level,
    for every scanner;
  \<^item> \<open>raw_decode\<close>, the scanner itself, which gives the parameter a concrete value where
    a run is evaluated.

  The text of a reply is a \<open>string\<close>, so it holds code points below 256 only. On these
  texts the scanner reads what the library reads: integer, fractional and exponent
  numerals, the constants \<^verbatim>\<open>NaN\<close>, \<^verbatim>\<open>Infinity\<close> and \<^verbatim>\<open>-Infinity\<close>, all escapes
  including \<^verbatim>\<open>\uXXXX\<close> and surrogate pairs. Two limits of the interpreter make the
  library raise on a text that is valid JSON; they vary with the configuration and are
  parameters of the scanner.
\<close>

text \<open>
  \<^item> \<open>int_max_str_digits\<close>: \<^verbatim>\<open>sys.get_int_max_str_digits()\<close>, the longest integer literal
    that \<^verbatim>\<open>int\<close> converts; a longer one raises \<^verbatim>\<open>ValueError\<close>. The default is 4300, and 0
    switches the limit off.
  \<^item> \<open>nesting_budget\<close>: how many arrays and objects may be open at once before the scanner
    raises \<^verbatim>\<open>RecursionError\<close>. It is what the recursion limit leaves at the call of
    \<^verbatim>\<open>json.loads\<close>.
\<close>

record interpreter =
  int_max_str_digits :: nat
  nesting_budget :: nat

text \<open>
  An interpreter as it is started by default: the digit limit 4300, and of the recursion
  limit of 1000 a budget of 900 left at the call of \<^verbatim>\<open>json.loads\<close>. (The exact budget
  depends on the build and on the frames in use; the runs evaluated below open two
  containers at most.)
\<close>

definition cpython_defaults :: interpreter where
  "cpython_defaults = \<lparr>int_max_str_digits = 4300, nesting_budget = 900\<rparr>"

text \<open>The code points of a text, as they appear in a parsed string.\<close>

definition code_points :: "string \<Rightarrow> nat list" where
  "code_points s = map of_char s"

text \<open>\<^verbatim>\<open>WHITESPACE = re.compile(r'[ \t\n\r]*')\<close>\<close>

definition is_ws :: "char \<Rightarrow> bool" where
  "is_ws ch = (ch = CHR '' '' \<or> ch = CHR 0x09 \<or> ch = CHR 0x0A \<or> ch = CHR 0x0D)"

definition skip_ws :: "string \<Rightarrow> string" where
  "skip_ws s = dropWhile is_ws s"

text \<open>A character below \<^verbatim>\<open>0x20\<close>: not allowed inside a string literal.\<close>

fun is_control :: "char \<Rightarrow> bool" where
  "is_control (Char b0 b1 b2 b3 b4 b5 b6 b7) = (\<not> b5 \<and> \<not> b6 \<and> \<not> b7)"

text \<open>The table \<^verbatim>\<open>BACKSLASH\<close> of the one-character escapes.\<close>

definition BACKSLASH :: "char \<Rightarrow> nat option" where
  "BACKSLASH esc =
     map_of [(CHR 0x22, 0x22), (CHR 0x5C, 0x5C), (CHR ''/'', 0x2F),
             (CHR ''b'', 0x08), (CHR ''f'', 0x0C), (CHR ''n'', 0x0A),
             (CHR ''r'', 0x0D), (CHR ''t'', 0x09)] esc"

definition hex_value :: "char \<Rightarrow> nat option" where
  "hex_value ch =
     map_of (zip ''0123456789abcdefABCDEF''
                 [0, 1, 2, 3, 4, 5, 6, 7, 8, 9, 10, 11, 12, 13, 14, 15, 10, 11, 12, 13, 14, 15]) ch"

text \<open>
  \<^verbatim>\<open>_decode_uXXXX\<close>, on the text after the \<^verbatim>\<open>u\<close>: the number written by the next four
  characters if they are hexadecimal digits, else \<^verbatim>\<open>JSONDecodeError\<close>.
\<close>

definition decode_uXXXX :: "string \<Rightarrow> nat option" where
  "decode_uXXXX s =
     (case map hex_value (take 4 s) of
        [Some a, Some b, Some c, Some d] \<Rightarrow> Some (((a * 16 + b) * 16 + c) * 16 + d)
      | _ \<Rightarrow> None)"

text \<open>
  The \<^verbatim>\<open>\u\<close> branch of the string scanner, on the text after the \<^verbatim>\<open>u\<close>: the code point
  and the number of characters read. A high surrogate directly followed by another
  \<^verbatim>\<open>\u\<close> escape is joined with it when that one is a low surrogate
  (\<^verbatim>\<open>0x10000 + (((uni - 0xd800) << 10) | (uni2 - 0xdc00))\<close>; the second operand of the
  bitwise or is below \<open>2^10\<close>, so the or is a sum); a surrogate on its own is kept as it is.
\<close>

definition unicode_escape :: "string \<Rightarrow> (nat \<times> nat) option" where
  "unicode_escape s =
     (case decode_uXXXX s of
        None \<Rightarrow> None
      | Some uni \<Rightarrow>
          if 0xD800 \<le> uni \<and> uni \<le> 0xDBFF \<and> take 2 (drop 4 s) = [CHR 0x5C, CHR ''u''] then
            (case decode_uXXXX (drop 6 s) of
               None \<Rightarrow> None
             | Some uni2 \<Rightarrow>
                 if 0xDC00 \<le> uni2 \<and> uni2 \<le> 0xDFFF
                 then Some (0x10000 + ((uni - 0xD800) * 1024 + (uni2 - 0xDC00)), 10)
                 else Some (uni, 4))
          else Some (uni, 4))"

text \<open>
  What follows a backslash: the escape character \<open>esc\<close> and the text after it. The result
  is the code point and the number of characters read after \<open>esc\<close>.
\<close>

definition escape :: "char \<Rightarrow> string \<Rightarrow> (nat \<times> nat) option" where
  "escape esc s =
     (if esc \<noteq> CHR ''u'' then
        (case BACKSLASH esc of
           None \<Rightarrow> None
         | Some char \<Rightarrow> Some (char, 0))
      else unicode_escape s)"

text \<open>
  \<^verbatim>\<open>scanstring\<close>, started after the opening quote: the parsed string and what follows the
  closing quote.
\<close>

fun scan_string :: "string \<Rightarrow> (nat list \<times> string) option" where
  "scan_string [] = None"
| "scan_string (ch # cs) =
     (if ch = CHR 0x22 then Some ([], cs)
      else if ch = CHR 0x5C then
        (case cs of
           [] \<Rightarrow> None
         | esc # cs' \<Rightarrow>
             (case escape esc cs' of
                None \<Rightarrow> None
              | Some (char, n) \<Rightarrow>
                  (case scan_string (drop n cs') of
                     None \<Rightarrow> None
                   | Some (str, rest) \<Rightarrow> Some (char # str, rest))))
      else if is_control ch then None
      else
        (case scan_string cs of
           None \<Rightarrow> None
         | Some (str, rest) \<Rightarrow> Some (of_char ch # str, rest)))"

definition is_digit :: "char \<Rightarrow> bool" where
  "is_digit ch = (ch \<in> set ''0123456789'')"

definition digit_value :: "char \<Rightarrow> int" where
  "digit_value ch = (case map_of (zip ''0123456789'' [0, 1, 2, 3, 4, 5, 6, 7, 8, 9]) ch of None \<Rightarrow> 0 | Some d \<Rightarrow> d)"

definition digits_value :: "string \<Rightarrow> int" where
  "digits_value ds = foldl (\<lambda>n d. 10 * n + digit_value d) 0 ds"

text \<open>
  \<^verbatim>\<open>NUMBER_RE = re.compile(r'(-?(?:0|[1-9]\d*))(\.\d+)?([eE][-+]?\d+)?')\<close>, group by
  group. Each function returns the text its group matches at the start of \<open>s\<close>, the
  empty text when the group does not match.
\<close>

definition integer_part :: "string \<Rightarrow> string" where
  "integer_part s =
     (let sign = takeWhile (\<lambda>c. c = CHR ''-'') (take 1 s)
      in case drop (length sign) s of
           [] \<Rightarrow> []
         | d # r \<Rightarrow>
             if d = CHR ''0'' then sign @ [d]
             else if is_digit d then sign @ d # takeWhile is_digit r
             else [])"

definition fraction_part :: "string \<Rightarrow> string" where
  "fraction_part s =
     (case s of
        [] \<Rightarrow> []
      | c # r \<Rightarrow>
          if c = CHR ''.'' \<and> takeWhile is_digit r \<noteq> [] then c # takeWhile is_digit r else [])"

definition exponent_part :: "string \<Rightarrow> string" where
  "exponent_part s =
     (case s of
        [] \<Rightarrow> []
      | c # r \<Rightarrow>
          if c = CHR ''e'' \<or> c = CHR ''E'' then
            (let sign = takeWhile (\<lambda>c. c = CHR ''+'' \<or> c = CHR ''-'') (take 1 r);
                 digits = takeWhile is_digit (drop (length sign) r)
             in if digits = [] then [] else c # sign @ digits)
          else [])"

text \<open>
  \<^verbatim>\<open>match_number\<close>: the three groups and the text after the match, \<open>None\<close> when the
  numeral has no integer part.
\<close>

definition match_number :: "string \<Rightarrow> (string \<times> string \<times> string \<times> string) option" where
  "match_number s =
     (let integer = integer_part s in
      if integer = [] then None
      else
        let frac = fraction_part (drop (length integer) s);
            exp = exponent_part (drop (length integer + length frac) s)
        in Some (integer, frac, exp, drop (length integer + length frac + length exp) s))"

text \<open>
  \<^verbatim>\<open>int(integer)\<close> on a text matched by the first group. The conversion raises
  \<^verbatim>\<open>ValueError\<close> when the digit limit is on and the literal has more digits than it
  allows; the interpreter tests this on literals of more than 640 digits only, the lowest
  limit that can be set.
\<close>

definition parse_int :: "interpreter \<Rightarrow> string \<Rightarrow> int option" where
  "parse_int py s =
     (let digits = filter is_digit s in
      if 640 < length digits \<and> 0 < int_max_str_digits py \<and> int_max_str_digits py < length digits
      then None
      else Some ((if take 1 s = ''-'' then - 1 else 1) * digits_value digits))"

text \<open>
  The branches of \<^verbatim>\<open>scan_once\<close> for a value that is neither a string nor a container, in
  the order of the source: the three literals, a numeral, the three float constants.
  A numeral with a fraction or an exponent goes to \<^verbatim>\<open>float\<close>, which accepts every such
  text; so do the constants.
\<close>

definition scan_atom :: "interpreter \<Rightarrow> string \<Rightarrow> (json \<times> string) option" where
  "scan_atom py s =
     (if take 4 s = ''null'' then Some (JNull, drop 4 s)
      else if take 4 s = ''true'' then Some (JBool True, drop 4 s)
      else if take 5 s = ''false'' then Some (JBool False, drop 5 s)
      else
        (case match_number s of
           Some (integer, frac, exp, rest) \<Rightarrow>
             if frac \<noteq> [] \<or> exp \<noteq> [] then Some (JFloat (integer @ frac @ exp), rest)
             else
               (case parse_int py integer of
                  None \<Rightarrow> None
                | Some res \<Rightarrow> Some (JInt res, rest))
         | None \<Rightarrow>
             if take 3 s = ''NaN'' then Some (JFloat ''NaN'', drop 3 s)
             else if take 8 s = ''Infinity'' then Some (JFloat ''Infinity'', drop 8 s)
             else if take 9 s = ''-Infinity'' then Some (JFloat ''-Infinity'', drop 9 s)
             else None))"

text \<open>\<^verbatim>\<open>dict(pairs)\<close>: a repeated key keeps its first position and takes the last value.\<close>

definition dict :: "(nat list \<times> json) list \<Rightarrow> (nat list \<times> json) list" where
  "dict pairs = foldl (\<lambda>d (k, v). AList.update k v d) [] pairs"

text \<open>
  The scanner proper: \<^verbatim>\<open>scan_once\<close>, with \<open>scan_items\<close> for the loop of \<^verbatim>\<open>JSONArray\<close>,
  started at a value, and \<open>scan_pairs\<close> for the loop of \<^verbatim>\<open>JSONObject\<close>, started after
  the opening quote of a key.
  \<^item> \<open>depth\<close> is what is left of the nesting budget. Entering an array or an object
    takes one unit, also when the container is empty; with none left the scanner raises
    \<^verbatim>\<open>RecursionError\<close>.
  \<^item> The argument \<open>n\<close> bounds the number of calls in a row; it makes the recursion
    structural and has no counterpart in the library. \<open>raw_decode\<close> passes a bound that
    no text exhausts (lemma \<open>raw_decode_fuel\<close>).
\<close>

fun scan_once :: "interpreter \<Rightarrow> nat \<Rightarrow> nat \<Rightarrow> string \<Rightarrow> (json \<times> string) option"
  and scan_items :: "interpreter \<Rightarrow> nat \<Rightarrow> nat \<Rightarrow> string \<Rightarrow> (json list \<times> string) option"
  and scan_pairs :: "interpreter \<Rightarrow> nat \<Rightarrow> nat \<Rightarrow> string \<Rightarrow> ((nat list \<times> json) list \<times> string) option"
where
  "scan_once py 0 depth s = None"
| "scan_once py (Suc n) depth s =
     (case s of
        [] \<Rightarrow> None
      | ch # cs \<Rightarrow>
          if ch = CHR 0x22 then
            (case scan_string cs of
               None \<Rightarrow> None
             | Some (str, rest) \<Rightarrow> Some (JString str, rest))
          else if ch = CHR ''{'' then
            (case depth of
               0 \<Rightarrow> None
             | Suc depth' \<Rightarrow>
                 (case skip_ws cs of
                    [] \<Rightarrow> None
                  | c # rest \<Rightarrow>
                      if c = CHR ''}'' then Some (JObject [], rest)
                      else if c = CHR 0x22 then
                        (case scan_pairs py n depth' rest of
                           None \<Rightarrow> None
                         | Some (pairs, rest') \<Rightarrow> Some (JObject (dict pairs), rest'))
                      else None))
          else if ch = CHR ''['' then
            (case depth of
               0 \<Rightarrow> None
             | Suc depth' \<Rightarrow>
                 (case skip_ws cs of
                    [] \<Rightarrow> None
                  | c # rest \<Rightarrow>
                      if c = CHR '']'' then Some (JArray [], rest)
                      else
                        (case scan_items py n depth' (c # rest) of
                           None \<Rightarrow> None
                         | Some (values, rest') \<Rightarrow> Some (JArray values, rest'))))
          else scan_atom py s)"
| "scan_items py 0 depth s = None"
| "scan_items py (Suc n) depth s =
     (case scan_once py n depth s of
        None \<Rightarrow> None
      | Some (v, rest) \<Rightarrow>
          (case skip_ws rest of
             [] \<Rightarrow> None
           | c # rest' \<Rightarrow>
               if c = CHR '']'' then Some ([v], rest')
               else if c = CHR '','' then
                 (case scan_items py n depth (skip_ws rest') of
                    None \<Rightarrow> None
                  | Some (vs, rest'') \<Rightarrow> Some (v # vs, rest''))
               else None))"
| "scan_pairs py 0 depth s = None"
| "scan_pairs py (Suc n) depth s =
     (case scan_string s of
        None \<Rightarrow> None
      | Some (key, rest) \<Rightarrow>
          (case skip_ws rest of
             [] \<Rightarrow> None
           | c # rest1 \<Rightarrow>
               if c \<noteq> CHR '':'' then None
               else
                 (case scan_once py n depth (skip_ws rest1) of
                    None \<Rightarrow> None
                  | Some (v, rest2) \<Rightarrow>
                      (case skip_ws rest2 of
                         [] \<Rightarrow> None
                       | d # rest3 \<Rightarrow>
                           if d = CHR ''}'' then Some ([(key, v)], rest3)
                           else if d = CHR '','' then
                             (case skip_ws rest3 of
                                [] \<Rightarrow> None
                              | q # rest4 \<Rightarrow>
                                  if q \<noteq> CHR 0x22 then None
                                  else
                                    (case scan_pairs py n depth rest4 of
                                       None \<Rightarrow> None
                                     | Some (ps, rest5) \<Rightarrow> Some ((key, v) # ps, rest5)))
                           else None))))"

text \<open>
  \<^verbatim>\<open>JSONDecoder.raw_decode\<close>: the first JSON value of the text and the text after it,
  \<open>None\<close> for every exception (\<^verbatim>\<open>JSONDecodeError\<close>, \<^verbatim>\<open>ValueError\<close>, \<^verbatim>\<open>RecursionError\<close>).
\<close>

definition raw_decode :: "interpreter \<Rightarrow> string \<Rightarrow> (json \<times> string) option" where
  "raw_decode py s = scan_once py (Suc (length s + length s)) (nesting_budget py) s"

text \<open>
  \<^verbatim>\<open>JSONDecoder.decode\<close> over a scanner \<open>raw\<close>: skip white space, scan one value, skip
  white space, and raise \<^verbatim>\<open>JSONDecodeError("Extra data")\<close> unless the text ends there.
\<close>

definition decode :: "(string \<Rightarrow> (json \<times> string) option) \<Rightarrow> string \<Rightarrow> json option" where
  "decode raw s =
     (case raw (skip_ws s) of
        None \<Rightarrow> None
      | Some (obj, rest) \<Rightarrow> if skip_ws rest = [] then Some obj else None)"

text \<open>
  \<^verbatim>\<open>json.loads\<close> on a \<^verbatim>\<open>str\<close>, called with no option as the repository does: the call
  \<^verbatim>\<open>_default_decoder.decode(s)\<close>. (The test for a leading byte order mark before it
  concerns the code point \<^verbatim>\<open>U+FEFF\<close>, which a \<open>string\<close> does not hold.)
\<close>

definition json_loads :: "interpreter \<Rightarrow> string \<Rightarrow> json option" where
  "json_loads py = decode (raw_decode py)"

subsection \<open>Collaborators for concrete runs\<close>

text \<open>
  Two chat collaborators used where a run is evaluated on a concrete input: a model that
  gives the same reply to every conversation, and one whose every call raises.
\<close>

definition always_reply :: "string \<Rightarrow> string \<Rightarrow> message list \<Rightarrow> string + string" where
  "always_reply reply model ms = Inr reply"

definition always_fails :: "string \<Rightarrow> string \<Rightarrow> message list \<Rightarrow> string + string" where
  "always_fails e model ms = Inl e"

lemmas patch_defs =
  patch_lines_def sort_by_line_desc_def operation_changes_def apply_change_def
  list_setitem_def list_delitem_def list_insert_def ssize_t_max_def py_index_def

lemmas json_defs =
  raw_decode_def cpython_defaults_def code_points_def skip_ws_def is_ws_def BACKSLASH_def hex_value_def
  decode_uXXXX_def unicode_escape_def escape_def is_digit_def digit_value_def digits_value_def
  integer_part_def fraction_part_def exponent_part_def match_number_def parse_int_def scan_atom_def
  dict_def

section \<open>Properties of the patch engine\<close>

subsection \<open>Auxiliary facts\<close>

lemma concat_singletons: "concat (map (\<lambda>j. [f j]) js) = map f js"
  by (induction js) simp_all

lemma map_nth_upt: "m \<le> length xs \<Longrightarrow> map (\<lambda>i. xs ! i) [i..<m] = drop i (take m xs)"
  by (simp add: list_eq_iff_nth_eq)

lemma simultaneous_upto_Nil: "m \<le> length xs \<Longrightarrow> simultaneous_upto m xs [] = take m xs"
  using map_nth_upt[of m xs 0]
  by (simp add: simultaneous_upto_def op_at_def edit_line_def concat_singletons)

lemma setitem_at: "list_setitem (pre @ l # rest) (int (length pre)) v = Inr (pre @ v # rest)"
  by (simp add: list_setitem_def py_index_def)

lemma delitem_at: "list_delitem (pre @ l # rest) (int (length pre)) = Inr (pre @ rest)"
  by (simp add: list_delitem_def py_index_def)

lemma ssize_t_max_pos: "0 < ssize_t_max"
  by (simp add: ssize_t_max_def)

lemma list_insert_within:
  assumes "0 \<le> i" "i \<le> int (length xs)"
  shows "list_insert xs i v = Inr (take (nat i) xs @ v # drop (nat i) xs)"
proof -
  have "\<not> ((i < - ssize_t_max - 1 \<or> ssize_t_max < i) \<and> int (length xs) \<le> ssize_t_max)"
    using assms ssize_t_max_pos by linarith
  then show ?thesis
    using assms by (simp add: list_insert_def Let_def min_def)
qed



lemma insert_after_at:
  "list_insert (pre @ l # rest) (int (length pre) + 1) v = Inr (pre @ l # v # rest)"
proof -
  have "nat (int (length pre) + 1) = Suc (length pre)" by simp
  then show ?thesis
    using list_insert_within[of "int (length pre) + 1" "pre @ l # rest" v] by simp
qed

lemma apply_change_at:
  assumes "line c = Some k" "1 \<le> k" "content c \<noteq> None" "operation c \<noteq> None"
    and "length pre = nat (k - 1)"
  shows "apply_change (pre @ l # rest) c = Inr (pre @ edit_line (Some c) l @ rest)"
proof -
  from assms have k: "k = int (length pre) + 1" by simp
  from assms obtain s opn where s: "content c = Some s" and opn: "operation c = Some opn" by auto
  show ?thesis
    unfolding apply_change_def edit_line_def
    using assms(1) s opn setitem_at[of pre l rest] delitem_at[of pre l rest] insert_after_at[of pre l rest]
    by (simp add: k)
qed

lemma simultaneous_upto_Cons:
  assumes k: "line c = Some k" "1 \<le> k" "k \<le> int m" and m: "m \<le> length xs"
    and below: "\<forall>c'\<in>set cs. \<exists>k'. line c' = Some k' \<and> k' < k"
  shows "simultaneous_upto m xs (c # cs) =
         simultaneous_upto (nat (k - 1)) xs cs @ edit_line (Some c) (xs ! nat (k - 1)) @ drop (nat k) (take m xs)"
proof -
  define j where "j = nat (k - 1)"
  have j: "j < m" "int j + 1 = k" "nat k = Suc j" using k by (auto simp: j_def)
  have split: "[0..<m] = [0..<j] @ j # [Suc j..<m]"
  proof -
    have "[0..<m] = [0..<j] @ [j..<m]"
      using j(1) upt_add_eq_append[of 0 j "m - j"] by simp
    then show ?thesis using j(1) by (simp add: upt_conv_Cons)
  qed
  have lo: "map (\<lambda>i. edit_line (op_at (c # cs) (int i + 1)) (xs ! i)) [0..<j]
          = map (\<lambda>i. edit_line (op_at cs (int i + 1)) (xs ! i)) [0..<j]"
    using k(1) j(2) by (intro map_cong refl) (auto simp: op_at_def)
  have mid: "op_at (c # cs) (int j + 1) = Some c"
    using k(1) j(2) by (simp add: op_at_def)
  have none: "op_at (c # cs) (int i + 1) = None" if "Suc j \<le> i" for i
  proof -
    have "line c \<noteq> Some (int i + 1)" using k(1) j(2) that by auto
    moreover have "\<not> (\<exists>c'. c' \<in> set cs \<and> line c' = Some (int i + 1))"
      using below j(2) that by fastforce
    ultimately show ?thesis by (simp add: op_at_def find_None_iff)
  qed
  have hi: "concat (map (\<lambda>i. edit_line (op_at (c # cs) (int i + 1)) (xs ! i)) [Suc j..<m])
          = drop (Suc j) (take m xs)"
  proof -
    have eq: "map (\<lambda>i. edit_line (op_at (c # cs) (int i + 1)) (xs ! i)) [Suc j..<m]
        = map (\<lambda>i. [xs ! i]) [Suc j..<m]"
      by (intro map_cong refl) (simp add: none edit_line_def)
    show ?thesis
      by (simp only: eq concat_singletons map_nth_upt[OF m])
  qed
  show ?thesis
    unfolding simultaneous_upto_def j_def[symmetric] split
    by (simp only: map_append list.map concat_append concat.simps lo mid hi j(3))
qed

lemma apply_ops_descending:
  assumes "sorted_wrt (\<lambda>a b. the (line b) < the (line a)) cs"
    and "\<forall>c\<in>set cs. operation c \<noteq> None \<and> content c \<noteq> None \<and> (\<exists>k. line c = Some k \<and> 1 \<le> k \<and> k \<le> int m)"
    and "m \<le> length xs"
  shows "apply_ops (take m xs @ rest) cs = Inr (simultaneous_upto m xs cs @ rest)"
  using assms
proof (induction cs arbitrary: m rest)
  case Nil
  then show ?case by (simp add: simultaneous_upto_Nil)
next
  case (Cons c cs)
  from Cons.prems(2) obtain k where k: "line c = Some k" "1 \<le> k" "k \<le> int m"
    and c: "operation c \<noteq> None" "content c \<noteq> None" by auto
  define j where "j = nat (k - 1)"
  have j: "j < m" "nat k = Suc j" using k by (auto simp: j_def)
  have jx: "j < length (take m xs)" using j(1) Cons.prems(3) by simp
  have tk: "take m xs = take j xs @ xs ! j # drop (Suc j) (take m xs)"
    using id_take_nth_drop[OF jx] j(1) by (simp add: min_def)
  have len: "length (take j xs) = nat (k - 1)"
    using j(1) Cons.prems(3) by (simp add: j_def)
  define rest' where "rest' = edit_line (Some c) (xs ! j) @ drop (Suc j) (take m xs) @ rest"
  have step: "apply_change (take m xs @ rest) c = Inr (take j xs @ rest')"
    using apply_change_at[OF k(1,2) c(2,1) len, of "xs ! j" "drop (Suc j) (take m xs) @ rest"]
    by (subst tk) (simp add: rest'_def)
  have below: "\<forall>c'\<in>set cs. \<exists>k'. line c' = Some k' \<and> k' < k"
    using Cons.prems(1,2) k(1) by fastforce
  have IH: "apply_ops (take j xs @ rest') cs = Inr (simultaneous_upto j xs cs @ rest')"
  proof (rule Cons.IH)
    show "sorted_wrt (\<lambda>a b. the (line b) < the (line a)) cs" using Cons.prems(1) by simp
    show "\<forall>c\<in>set cs. operation c \<noteq> None \<and> content c \<noteq> None \<and> (\<exists>k. line c = Some k \<and> 1 \<le> k \<and> k \<le> int j)"
      using Cons.prems(2) below by (fastforce simp: j_def)
    show "j \<le> length xs" using j(1) Cons.prems(3) by simp
  qed
  show ?case
    using step IH simultaneous_upto_Cons[OF k Cons.prems(3) below]
    by (simp add: rest'_def j_def[symmetric] j(2))
qed


lemma sort_by_line_strict:
  assumes d: "distinct (map line cs)" and n: "None \<notin> set (map line cs)"
  shows "sorted_wrt (\<lambda>a b. the (line b) < the (line a)) (sort_key (\<lambda>c. - the (line c)) cs)"
proof -
  let ?f = "\<lambda>c. - the (line c)"
  have inj: "inj_on ?f (set cs)"
  proof (rule inj_onI)
    fix a b assume ab: "a \<in> set cs" "b \<in> set cs" "?f a = ?f b"
    with n have "line a = line b" by (cases "line a"; cases "line b") force+
    with d ab(1,2) show "a = b" by (auto simp: distinct_map dest: inj_onD)
  qed
  from d have "distinct cs" by (simp add: distinct_map)
  with inj have "distinct (map ?f cs)" by (simp add: distinct_map)
  moreover have "mset (map ?f (sort_key ?f cs)) = mset (map ?f cs)" by simp
  ultimately have "distinct (map ?f (sort_key ?f cs))"
    using mset_eq_imp_distinct_iff by blast
  then have "sorted_wrt (<) (map ?f (sort_key ?f cs))"
    by (simp add: strict_sorted_iff)
  then show ?thesis by (simp add: sorted_wrt_map)
qed

lemma find_unique:
  "distinct (map f xs) \<Longrightarrow> x \<in> set xs \<Longrightarrow> find (\<lambda>c. f c = f x) xs = Some x"
  by (induction xs) auto

lemma op_at_cong:
  assumes "set xs = set ys" "distinct (map line xs)" "distinct (map line ys)"
  shows "op_at xs k = op_at ys k"
proof (cases "\<exists>c\<in>set xs. line c = Some k")
  case True
  then obtain c where c: "c \<in> set xs" "line c = Some k" by blast
  then show ?thesis
    using find_unique[OF assms(2) c(1)] find_unique[OF assms(3), of c] assms(1)
    by (simp add: op_at_def)
next
  case False
  then have "op_at xs k = None" "op_at ys k = None"
    using assms(1) by (auto simp: op_at_def find_None_iff)
  then show ?thesis by simp
qed

lemma patch_lines_simultaneous:
  assumes h: "\<forall>c\<in>set (operation_changes batch).
               content c \<noteq> None \<and> (\<exists>k. line c = Some k \<and> 1 \<le> k \<and> k \<le> int (length original))"
    and d: "distinct (map line (operation_changes batch))"
  shows "patch_lines original batch = Inr (apply_simultaneously original (operation_changes batch))"
proof -
  let ?ops = "operation_changes batch"
  let ?sorted = "sort_key (\<lambda>c. - the (line c)) ?ops"
  have n: "None \<notin> set (map line ?ops)" using h by force
  have srt: "sort_by_line_desc ?ops = Inr ?sorted"
    using n by (simp add: sort_by_line_desc_def)
  have ds: "distinct (map line ?sorted)"
    using d mset_eq_imp_distinct_iff[of "map line ?sorted" "map line ?ops"] by simp
  have "apply_ops (take (length original) original @ []) ?sorted
      = Inr (simultaneous_upto (length original) original ?sorted @ [])"
  proof (rule apply_ops_descending)
    show "sorted_wrt (\<lambda>a b. the (line b) < the (line a)) ?sorted"
      using sort_by_line_strict[OF d n] .
    show "\<forall>c\<in>set ?sorted. operation c \<noteq> None \<and> content c \<noteq> None \<and>
            (\<exists>k. line c = Some k \<and> 1 \<le> k \<and> k \<le> int (length original))"
      using h by (auto simp: operation_changes_def)
  qed simp
  moreover have "simultaneous_upto (length original) original ?sorted
               = simultaneous_upto (length original) original ?ops"
    unfolding simultaneous_upto_def
    using op_at_cong[OF _ ds d] by simp
  ultimately show ?thesis
    by (simp add: patch_lines_def srt apply_simultaneously_def)
qed




lemma patch_lines_single:
  "operation c \<noteq> None \<Longrightarrow> line c \<noteq> None \<Longrightarrow> patch_lines xs [c] = apply_change xs c"
  by (auto simp: patch_lines_def sort_by_line_desc_def operation_changes_def split: sum.splits)









text \<open>
  A missing \<^verbatim>\<open>content\<close> key raises \<^verbatim>\<open>KeyError\<close> whatever the operation is, since the
  subscript is evaluated before the branch; a batch of one such operation leaves the
  file as it was.
\<close>

lemma apply_change_without_content:
  "operation c = Some opn \<Longrightarrow> line c = Some k \<Longrightarrow> content c = None \<Longrightarrow>
   apply_change xs c = Inl (KeyError ''content'')"
  by (simp add: apply_change_def)

lemma apply_changes_without_content:
  "operation c = Some opn \<Longrightarrow> line c = Some k \<Longrightarrow> content c = None \<Longrightarrow>
   apply_changes (files(p \<mapsto> xs)) p [c] confirm answer = (Inl (KeyError ''content''), files(p \<mapsto> xs))"
  by (simp add: apply_changes_def patch_lines_single apply_change_without_content)


subsection \<open>The claims on \<^verbatim>\<open>apply_changes\<close>\<close>




text \<open>
  Claim C6, as the code has it: when the \<^verbatim>\<open>Delete\<close> of the scenario carries a
  \<^verbatim>\<open>content\<close> key (with any string \<open>s\<close>), the batch applied to the three lines
  \<^verbatim>\<open>a\<close>, \<^verbatim>\<open>b\<close>, \<^verbatim>\<open>c\<close> writes exactly \<^verbatim>\<open>a\<close>, \<^verbatim>\<open>x\<close>, \<^verbatim>\<open>z\<close>.
\<close>

theorem scenario_with_delete_content:
  "apply_changes (files(p \<mapsto> [''a'' @ nl, ''b'' @ nl, ''c'' @ nl])) p
     [\<lparr>operation = Some ''Delete'', line = Some 2, content = Some s, explanation = None\<rparr>,
      \<lparr>operation = Some ''InsertAfter'', line = Some 1, content = Some ''x'', explanation = None\<rparr>,
      \<lparr>operation = Some ''Replace'', line = Some 3, content = Some ''z'', explanation = None\<rparr>]
     False answer
   = (Inr (), files(p \<mapsto> [''a'' @ nl, ''x'' @ nl, ''z'' @ nl]))"
  by (simp add: apply_changes_def patch_defs)

text \<open>Witness for C6: the scenario with the empty string as the content of the \<^verbatim>\<open>Delete\<close>.\<close>

theorem scenario_with_delete_content_witness:
  "apply_changes [''script.py'' \<mapsto> [''a'' @ nl, ''b'' @ nl, ''c'' @ nl]] ''script.py''
     [\<lparr>operation = Some ''Delete'', line = Some 2, content = Some [], explanation = None\<rparr>,
      \<lparr>operation = Some ''InsertAfter'', line = Some 1, content = Some ''x'', explanation = None\<rparr>,
      \<lparr>operation = Some ''Replace'', line = Some 3, content = Some ''z'', explanation = None\<rparr>]
     False []
   = (Inr (), [''script.py'' \<mapsto> [''a'' @ nl, ''x'' @ nl, ''z'' @ nl]])"
  using scenario_with_delete_content[where files = Map.empty and p = "''script.py''" and s = "[]" and answer = "[]"]
  by simp

text \<open>
  Counterexample to C6 as stated: with the \<^verbatim>\<open>Delete\<close> object as the scenario writes
  it, without a \<^verbatim>\<open>content\<close> key, the subscript \<^verbatim>\<open>change["content"]\<close> raises
  \<^verbatim>\<open>KeyError\<close> and the file stays as it was.
\<close>

theorem scenario_as_written_raises:
  "apply_changes [''script.py'' \<mapsto> [''a'' @ nl, ''b'' @ nl, ''c'' @ nl]] ''script.py''
     [\<lparr>operation = Some ''Delete'', line = Some 2, content = None, explanation = None\<rparr>,
      \<lparr>operation = Some ''InsertAfter'', line = Some 1, content = Some ''x'', explanation = None\<rparr>,
      \<lparr>operation = Some ''Replace'', line = Some 3, content = Some ''z'', explanation = None\<rparr>]
     False []
   = (Inl (KeyError ''content''), [''script.py'' \<mapsto> [''a'' @ nl, ''b'' @ nl, ''c'' @ nl]])"
  by (simp add: apply_changes_def patch_defs)

text \<open>
  Claim C7, as the code has it. Take a batch whose operations (the objects with an
  \<^verbatim>\<open>operation\<close> key) all carry \<^verbatim>\<open>content\<close> and a \<^verbatim>\<open>line\<close> within the bounds of the
  original buffer, no two of them the same line. Then the pass over the operations
  sorted from the highest line to the lowest, on one mutating buffer, computes the
  buffer obtained by reading every operation against the original numbering; and
  every reordering of the batch gives the same result.
\<close>

theorem descending_pass_is_simultaneous:
  assumes h: "\<forall>c\<in>set (operation_changes batch).
               content c \<noteq> None \<and> (\<exists>k. line c = Some k \<and> 1 \<le> k \<and> k \<le> int (length original))"
    and d: "distinct (map line (operation_changes batch))"
  shows "patch_lines original batch = Inr (apply_simultaneously original (operation_changes batch))
       \<and> (\<forall>batch'. mset batch' = mset batch \<longrightarrow> patch_lines original batch' = patch_lines original batch)"
proof (intro conjI allI impI)
  show "patch_lines original batch = Inr (apply_simultaneously original (operation_changes batch))"
    using patch_lines_simultaneous[OF h d] .
next
  fix batch' assume p: "mset batch' = mset batch"
  then have m: "mset (operation_changes batch') = mset (operation_changes batch)"
    by (simp add: operation_changes_def)
  then have s: "set (operation_changes batch') = set (operation_changes batch)"
    using mset_eq_setD by blast
  have "mset (map line (operation_changes batch')) = mset (map line (operation_changes batch))"
    using m by (metis mset_map)
  then have d': "distinct (map line (operation_changes batch'))"
    using d mset_eq_imp_distinct_iff by blast
  have h': "\<forall>c\<in>set (operation_changes batch').
               content c \<noteq> None \<and> (\<exists>k. line c = Some k \<and> 1 \<le> k \<and> k \<le> int (length original))"
    using h s by simp
  have "apply_simultaneously original (operation_changes batch')
      = apply_simultaneously original (operation_changes batch)"
    unfolding apply_simultaneously_def simultaneous_upto_def
    using op_at_cong[OF s d' d] by simp
  then show "patch_lines original batch' = patch_lines original batch"
    using patch_lines_simultaneous[OF h' d'] patch_lines_simultaneous[OF h d] by simp
qed

text \<open>Witness for C7: the three operations of the scenario, in two different orders.\<close>

theorem descending_pass_is_simultaneous_witness:
  "patch_lines [''a'' @ nl, ''b'' @ nl, ''c'' @ nl]
     [\<lparr>operation = Some ''Delete'', line = Some 2, content = Some [], explanation = None\<rparr>,
      \<lparr>operation = Some ''InsertAfter'', line = Some 1, content = Some ''x'', explanation = None\<rparr>,
      \<lparr>operation = Some ''Replace'', line = Some 3, content = Some ''z'', explanation = None\<rparr>]
   = Inr (apply_simultaneously [''a'' @ nl, ''b'' @ nl, ''c'' @ nl]
       [\<lparr>operation = Some ''Delete'', line = Some 2, content = Some [], explanation = None\<rparr>,
        \<lparr>operation = Some ''InsertAfter'', line = Some 1, content = Some ''x'', explanation = None\<rparr>,
        \<lparr>operation = Some ''Replace'', line = Some 3, content = Some ''z'', explanation = None\<rparr>])
   \<and> patch_lines [''a'' @ nl, ''b'' @ nl, ''c'' @ nl]
     [\<lparr>operation = Some ''Replace'', line = Some 3, content = Some ''z'', explanation = None\<rparr>,
      \<lparr>operation = Some ''InsertAfter'', line = Some 1, content = Some ''x'', explanation = None\<rparr>,
      \<lparr>operation = Some ''Delete'', line = Some 2, content = Some [], explanation = None\<rparr>]
   = patch_lines [''a'' @ nl, ''b'' @ nl, ''c'' @ nl]
     [\<lparr>operation = Some ''Delete'', line = Some 2, content = Some [], explanation = None\<rparr>,
      \<lparr>operation = Some ''InsertAfter'', line = Some 1, content = Some ''x'', explanation = None\<rparr>,
      \<lparr>operation = Some ''Replace'', line = Some 3, content = Some ''z'', explanation = None\<rparr>]"
proof -
  let ?d = "\<lparr>operation = Some ''Delete'', line = Some 2, content = Some [], explanation = None\<rparr>"
  let ?i = "\<lparr>operation = Some ''InsertAfter'', line = Some 1, content = Some ''x'', explanation = None\<rparr>"
  let ?r = "\<lparr>operation = Some ''Replace'', line = Some 3, content = Some ''z'', explanation = None\<rparr>"
  let ?abc = "[''a'' @ nl, ''b'' @ nl, ''c'' @ nl]"
  have ops: "operation_changes [?d, ?i, ?r] = [?d, ?i, ?r]"
    by (simp add: operation_changes_def)
  have h: "\<forall>c\<in>set (operation_changes [?d, ?i, ?r]).
             content c \<noteq> None \<and> (\<exists>k. line c = Some k \<and> 1 \<le> k \<and> k \<le> int (length ?abc))"
    unfolding ops by simp
  have d: "distinct (map line (operation_changes [?d, ?i, ?r]))"
    unfolding ops by simp
  have m: "mset [?r, ?i, ?d] = mset [?d, ?i, ?r]"
    by (simp add: add_mset_commute)
  from descending_pass_is_simultaneous[OF h d] m show ?thesis
    unfolding ops by blast
qed

text \<open>
  Counterexample to C7 as stated: a batch of one in-range \<^verbatim>\<open>Delete\<close> without a
  \<^verbatim>\<open>content\<close> key. Read against the original numbering it empties the one-line
  buffer; the code raises \<^verbatim>\<open>KeyError\<close>.
\<close>

theorem delete_without_content_breaks_equivalence:
  "patch_lines [''a'' @ nl] [\<lparr>operation = Some ''Delete'', line = Some 1, content = None, explanation = None\<rparr>]
     = Inl (KeyError ''content'')
   \<and> apply_simultaneously [''a'' @ nl]
       (operation_changes [\<lparr>operation = Some ''Delete'', line = Some 1, content = None, explanation = None\<rparr>])
     = []"
  by (simp add: patch_defs apply_simultaneously_def simultaneous_upto_def op_at_def edit_line_def)

text \<open>
  Claim C8: when no object of the batch has an \<^verbatim>\<open>operation\<close> key, the filter leaves
  no operation, the computed buffer is the original one, and the file is written back
  unchanged (or, with the confirmation declined, not written at all).
\<close>

theorem commentary_only_batch:
  assumes "\<forall>c\<in>set changes. operation c = None"
  shows "operation_changes changes = []
       \<and> patch_lines original changes = Inr original
       \<and> apply_changes (files(p \<mapsto> original)) p changes False answer = (Inr (), files(p \<mapsto> original))
       \<and> snd (apply_changes (files(p \<mapsto> original)) p changes confirm answer) = files(p \<mapsto> original)"
proof -
  have e: "operation_changes changes = []"
    using assms by (simp add: operation_changes_def)
  then have p: "patch_lines original changes = Inr original"
    by (simp add: patch_lines_def sort_by_line_desc_def)
  show ?thesis
    using e p by (simp add: apply_changes_def)
qed

text \<open>Witness for C8: a batch of one object that carries only an explanation.\<close>

theorem commentary_only_batch_witness:
  "operation_changes [\<lparr>operation = None, line = None, content = None, explanation = Some ''fix''\<rparr>] = []
   \<and> apply_changes [''script.py'' \<mapsto> [''a'' @ nl, ''b'' @ nl]] ''script.py''
        [\<lparr>operation = None, line = None, content = None, explanation = Some ''fix''\<rparr>] False []
      = (Inr (), [''script.py'' \<mapsto> [''a'' @ nl, ''b'' @ nl]])"
  using commentary_only_batch[where changes = "[\<lparr>operation = None, line = None, content = None, explanation = Some ''fix''\<rparr>]"
      and files = Map.empty and p = "''script.py''" and original = "[''a'' @ nl, ''b'' @ nl]" and answer = "[]" and confirm = False]
  by simp

text \<open>
  Claim C9, as the code has it: a \<^verbatim>\<open>Delete\<close> that carries a \<^verbatim>\<open>content\<close> key, on a line
  within the buffer, succeeds and removes exactly the addressed line; the result does
  not depend on the value of \<^verbatim>\<open>content\<close>.
\<close>

theorem delete_ignores_content:
  assumes "operation c = Some ''Delete''" "line c = Some k" "1 \<le> k" "k \<le> int (length xs)"
    and "content c = Some s"
  shows "apply_change xs c = Inr (take (nat (k - 1)) xs @ drop (nat k) xs)
       \<and> apply_changes (files(p \<mapsto> xs)) p [c] False answer
           = (Inr (), files(p \<mapsto> take (nat (k - 1)) xs @ drop (nat k) xs))"
proof -
  have i: "py_index xs (k - 1) = Some (nat (k - 1))"
    using assms(3,4) by (simp add: py_index_def)
  have "Suc (nat (k - 1)) = nat k" using assms(3) by simp
  then have a: "apply_change xs c = Inr (take (nat (k - 1)) xs @ drop (nat k) xs)"
    using assms i by (simp add: apply_change_def list_delitem_def)
  moreover have "patch_lines xs [c] = apply_change xs c"
    using assms by (simp add: patch_lines_single)
  ultimately show ?thesis by (simp add: apply_changes_def)
qed

text \<open>Witness for C9: deleting line 1 of a two-line file, with an arbitrary content.\<close>

theorem delete_ignores_content_witness:
  "apply_changes [''script.py'' \<mapsto> [''a'' @ nl, ''b'' @ nl]] ''script.py''
     [\<lparr>operation = Some ''Delete'', line = Some 1, content = Some ''anything'', explanation = None\<rparr>] False []
   = (Inr (), [''script.py'' \<mapsto> [''b'' @ nl]])"
  using delete_ignores_content[where c = "\<lparr>operation = Some ''Delete'', line = Some 1, content = Some ''anything'', explanation = None\<rparr>"
      and k = 1 and xs = "[''a'' @ nl, ''b'' @ nl]" and s = "''anything''" and files = Map.empty
      and p = "''script.py''" and answer = "[]"]
  by simp

text \<open>
  Counterexample to C9 as stated: a \<^verbatim>\<open>Delete\<close> without a \<^verbatim>\<open>content\<close> key on an
  existing line raises \<^verbatim>\<open>KeyError\<close>; the line is not removed.
\<close>

theorem delete_without_content_raises:
  "apply_changes [''script.py'' \<mapsto> [''a'' @ nl, ''b'' @ nl]] ''script.py''
     [\<lparr>operation = Some ''Delete'', line = Some 1, content = None, explanation = None\<rparr>] False []
   = (Inl (KeyError ''content''), [''script.py'' \<mapsto> [''a'' @ nl, ''b'' @ nl]])"
  by (simp add: apply_changes_def patch_defs)

text \<open>
  Claim C10: for an in-range \<^verbatim>\<open>Replace\<close> or \<^verbatim>\<open>InsertAfter\<close> with content \<open>s\<close>, the
  element placed into the buffer is \<open>s\<close> followed by one newline, whatever \<open>s\<close> is:
  a \<^verbatim>\<open>Replace\<close> keeps the length of the buffer and puts it at position \<open>line - 1\<close>, an
  \<^verbatim>\<open>InsertAfter\<close> makes the buffer one element longer and puts it at position \<open>line\<close>.
  So a content ending in a newline gives an element ending in two, and a content with
  embedded newlines is still one element.
\<close>

theorem placed_line_is_content_newline:
  assumes "line c = Some k" "1 \<le> k" "k \<le> int (length xs)" "content c = Some s"
  shows "(operation c = Some ''Replace'' \<longrightarrow>
            apply_change xs c = Inr (xs[nat (k - 1) := s @ nl])
          \<and> length (xs[nat (k - 1) := s @ nl]) = length xs
          \<and> xs[nat (k - 1) := s @ nl] ! nat (k - 1) = s @ nl)
       \<and> (operation c = Some ''InsertAfter'' \<longrightarrow>
            apply_change xs c = Inr (take (nat k) xs @ (s @ nl) # drop (nat k) xs)
          \<and> length (take (nat k) xs @ (s @ nl) # drop (nat k) xs) = Suc (length xs)
          \<and> (take (nat k) xs @ (s @ nl) # drop (nat k) xs) ! nat k = s @ nl)"
proof (intro conjI impI)
  assume r: "operation c = Some ''Replace''"
  have "py_index xs (k - 1) = Some (nat (k - 1))"
    using assms(2,3) by (simp add: py_index_def)
  then show "apply_change xs c = Inr (xs[nat (k - 1) := s @ nl])"
    using assms r by (simp add: apply_change_def list_setitem_def)
  show "length (xs[nat (k - 1) := s @ nl]) = length xs" by simp
  show "xs[nat (k - 1) := s @ nl] ! nat (k - 1) = s @ nl"
    using assms(2,3) by simp
next
  assume i: "operation c = Some ''InsertAfter''"
  show "apply_change xs c = Inr (take (nat k) xs @ (s @ nl) # drop (nat k) xs)"
    using assms i list_insert_within[of k xs "s @ nl"] by (simp add: apply_change_def)
  show "length (take (nat k) xs @ (s @ nl) # drop (nat k) xs) = Suc (length xs)"
    using assms(2,3) by simp
  show "(take (nat k) xs @ (s @ nl) # drop (nat k) xs) ! nat k = s @ nl"
    using assms(2,3) by (simp add: nth_append)
qed

text \<open>
  Witness for C10: the content \<^verbatim>\<open>"x\ny\n"\<close> becomes the single element \<^verbatim>\<open>"x\ny\n\n"\<close>.
\<close>

theorem placed_line_is_content_newline_witness:
  "apply_change [''a'' @ nl, ''b'' @ nl]
     \<lparr>operation = Some ''Replace'', line = Some 2, content = Some (''x'' @ nl @ ''y'' @ nl), explanation = None\<rparr>
     = Inr [''a'' @ nl, ''x'' @ nl @ ''y'' @ nl @ nl]
   \<and> apply_change [''a'' @ nl, ''b'' @ nl]
     \<lparr>operation = Some ''InsertAfter'', line = Some 1, content = Some (''x'' @ nl @ ''y'' @ nl), explanation = None\<rparr>
     = Inr [''a'' @ nl, ''x'' @ nl @ ''y'' @ nl @ nl, ''b'' @ nl]"
  using placed_line_is_content_newline[where c = "\<lparr>operation = Some ''Replace'', line = Some 2, content = Some (''x'' @ nl @ ''y'' @ nl), explanation = None\<rparr>"
      and k = 2 and xs = "[''a'' @ nl, ''b'' @ nl]" and s = "''x'' @ nl @ ''y'' @ nl"]
    placed_line_is_content_newline[where c = "\<lparr>operation = Some ''InsertAfter'', line = Some 1, content = Some (''x'' @ nl @ ''y'' @ nl), explanation = None\<rparr>"
      and k = 1 and xs = "[''a'' @ nl, ''b'' @ nl]" and s = "''x'' @ nl @ ''y'' @ nl"]
  by simp

section \<open>Properties of the response validator\<close>

subsection \<open>Auxiliary facts\<close>

lemma jvr_zero:
  "json_validated_response chat loads model s 0 = Some (Inl ExhaustedRetries, s)"
  by (subst json_validated_response.simps) simp

lemma jvr_chat_error:
  "nb_retry \<noteq> 0 \<Longrightarrow> chat model (messages s) = Inl e \<Longrightarrow>
   json_validated_response chat loads model s nb_retry
     = Some (Inl (TransportFailure e), s\<lparr>sent := sent s @ [messages s]\<rparr>)"
  by (subst json_validated_response.simps) simp

lemma jvr_parsed:
  "nb_retry \<noteq> 0 \<Longrightarrow> chat model (messages s) = Inr reply \<Longrightarrow> parse_reply loads reply = Some v \<Longrightarrow>
   json_validated_response chat loads model s nb_retry
     = Some (Inr v, s\<lparr>sent := sent s @ [messages s]\<rparr>)"
  by (subst json_validated_response.simps) simp

lemma jvr_retry:
  "nb_retry \<noteq> 0 \<Longrightarrow> chat model (messages s) = Inr reply \<Longrightarrow> parse_reply loads reply = None \<Longrightarrow>
   json_validated_response chat loads model s nb_retry
     = json_validated_response chat loads model
         (s\<lparr>messages := messages s @ [correction_request], sent := sent s @ [messages s]\<rparr>)
         (if nb_retry > 0 then nb_retry - 1 else nb_retry)"
  by (subst json_validated_response.simps) simp

lemma jvr_positive_returns:
  "\<exists>r s'. json_validated_response chat loads model s (int (Suc k)) = Some (r, s')
          \<and> length (sent s) < length (sent s') \<and> length (sent s') \<le> length (sent s) + Suc k"
proof (induction k arbitrary: s)
  case 0
  show ?case
  proof (cases "chat model (messages s)")
    case (Inl e)
    then show ?thesis by (simp add: jvr_chat_error)
  next
    case (Inr reply)
    then show ?thesis
      by (cases "parse_reply loads reply") (simp_all add: jvr_parsed jvr_retry jvr_zero)
  qed
next
  case (Suc k)
  show ?case
  proof (cases "chat model (messages s)")
    case (Inl e)
    then show ?thesis by (simp add: jvr_chat_error)
  next
    case (Inr reply)
    show ?thesis
    proof (cases "parse_reply loads reply")
      case None
      let ?s1 = "s\<lparr>messages := messages s @ [correction_request], sent := sent s @ [messages s]\<rparr>"
      have step: "json_validated_response chat loads model s (int (Suc (Suc k)))
          = json_validated_response chat loads model ?s1 (int (Suc k))"
        using jvr_retry[where chat = chat and model = model and s = s and reply = reply
            and loads = loads and nb_retry = "int (Suc (Suc k))"] Inr None by simp
      from Suc.IH[of ?s1] obtain r s' where
        "json_validated_response chat loads model ?s1 (int (Suc k)) = Some (r, s')"
        "length (sent ?s1) < length (sent s')" "length (sent s') \<le> length (sent ?s1) + Suc k"
        by blast
      then show ?thesis unfolding step by auto
    next
      case (Some v)
      then show ?thesis using Inr by (simp add: jvr_parsed)
    qed
  qed
qed

lemma jvr_all_unparseable:
  assumes "\<forall>ms. \<exists>reply. chat model ms = Inr reply \<and> parse_reply loads reply = None"
  shows "\<exists>s'. json_validated_response chat loads model s (int k) = Some (Inl ExhaustedRetries, s')
          \<and> length (sent s') = length (sent s) + k"
proof (induction k arbitrary: s)
  case 0
  show ?case by (simp add: jvr_zero)
next
  case (Suc k)
  from assms obtain reply where r: "chat model (messages s) = Inr reply" "parse_reply loads reply = None"
    by blast
  let ?s1 = "s\<lparr>messages := messages s @ [correction_request], sent := sent s @ [messages s]\<rparr>"
  have step: "json_validated_response chat loads model s (int (Suc k))
      = json_validated_response chat loads model ?s1 (int k)"
    using jvr_retry[where chat = chat and model = model and s = s and reply = reply
        and loads = loads and nb_retry = "int (Suc k)"] r by simp
  from Suc.IH[of ?s1] show ?case unfolding step by auto
qed

lemma jvr_run_induct [consumes 1, case_names exhausted chat_error parsed retry]:
  assumes run: "json_validated_response chat loads model s n = Some y"
    and exhausted: "\<And>s. P s 0 (Inl ExhaustedRetries, s)"
    and chat_error: "\<And>s n e. n \<noteq> 0 \<Longrightarrow> chat model (messages s) = Inl e \<Longrightarrow>
            P s n (Inl (TransportFailure e), s\<lparr>sent := sent s @ [messages s]\<rparr>)"
    and parsed: "\<And>s n reply v. n \<noteq> 0 \<Longrightarrow> chat model (messages s) = Inr reply \<Longrightarrow>
            parse_reply loads reply = Some v \<Longrightarrow> P s n (Inr v, s\<lparr>sent := sent s @ [messages s]\<rparr>)"
    and retry: "\<And>s n reply y. n \<noteq> 0 \<Longrightarrow> chat model (messages s) = Inr reply \<Longrightarrow>
            parse_reply loads reply = None \<Longrightarrow>
            P (s\<lparr>messages := messages s @ [correction_request], sent := sent s @ [messages s]\<rparr>)
              (if n > 0 then n - 1 else n) y \<Longrightarrow> P s n y"
  shows "P s n y"
proof -
  have "chat = chat \<and> loads = loads \<and> model = model \<longrightarrow> P s n y"
    using run
  proof (rule json_validated_response.raw_induct[rotated,
        where P = "\<lambda>chat' loads' model' s n y. chat' = chat \<and> loads' = loads \<and> model' = model \<longrightarrow> P s n y"])
    fix f chat' loads' model' s n y
    assume IH: "\<And>chat' loads' model' s n y. f chat' loads' model' s n = Some y \<Longrightarrow>
                  chat' = chat \<and> loads' = loads \<and> model' = model \<longrightarrow> P s n y"
      and body: "(if n \<noteq> 0 then
        (case chat' model' (messages s) of
           Inl e \<Rightarrow> Some (Inl (TransportFailure e), s\<lparr>sent := sent s @ [messages s]\<rparr>)
         | Inr reply \<Rightarrow>
             (case parse_reply loads' reply of
                Some json_response \<Rightarrow> Some (Inr json_response, s\<lparr>sent := sent s @ [messages s]\<rparr>)
              | None \<Rightarrow>
                  f chat' loads' model'
                    (s\<lparr>messages := messages s @ [correction_request],
                       sent := sent s @ [messages s]\<rparr>)
                    (if n > 0 then n - 1 else n)))
      else Some (Inl ExhaustedRetries, s)) = Some y"
    show "chat' = chat \<and> loads' = loads \<and> model' = model \<longrightarrow> P s n y"
    proof
      assume eq: "chat' = chat \<and> loads' = loads \<and> model' = model"
      show "P s n y"
      proof (cases "n = 0")
        case True
        with body show ?thesis using exhausted by auto
      next
        case n: False
        show ?thesis
        proof (cases "chat model (messages s)")
          case (Inl e)
          with body n eq show ?thesis using chat_error[OF n Inl] by auto
        next
          case (Inr reply)
          show ?thesis
          proof (cases "parse_reply loads reply")
            case None
            with body n eq Inr have
              "f chat loads model (s\<lparr>messages := messages s @ [correction_request], sent := sent s @ [messages s]\<rparr>)
                 (if n > 0 then n - 1 else n) = Some y" by simp
            from IH[OF this] show ?thesis using retry[OF n Inr None] by simp
          next
            case (Some v)
            with body n eq Inr show ?thesis using parsed[OF n Inr Some] by auto
          qed
        qed
      qed
    qed
  qed
  then show ?thesis by simp
qed

lemma jvr_negative_never_exhausted:
  assumes "json_validated_response chat loads model s n = Some y"
  shows "n < 0 \<longrightarrow> fst y \<noteq> Inl ExhaustedRetries"
  using assms by (induction rule: jvr_run_induct) auto

lemma jvr_unlimited_diverges:
  assumes u: "\<forall>ms. \<exists>reply. chat model ms = Inr reply \<and> parse_reply loads reply = None"
    and n: "n < 0"
  shows "json_validated_response chat loads model s n = None"
proof (cases "json_validated_response chat loads model s n")
  case None
  then show ?thesis .
next
  case (Some y)
  then have "n < 0 \<longrightarrow> False"
  proof (induction rule: jvr_run_induct)
    case (chat_error s n e)
    with u show ?case by (metis Inl_Inr_False)
  next
    case (parsed s n reply v)
    with u show ?case by (metis option.distinct(1) sum.inject(2))
  qed auto
  with n show ?thesis by simp
qed

lemma jvr_only_last_exchange_fails:
  assumes "json_validated_response chat loads model s n = Some y"
  shows "\<exists>new. sent (snd y) = sent s @ new
           \<and> (\<forall>ms\<in>set (butlast new). \<exists>reply. chat model ms = Inr reply \<and> parse_reply loads reply = None)"
  using assms
proof (induction rule: jvr_run_induct)
  case (retry s n reply y)
  then obtain new where new: "sent (snd y) = (sent s @ [messages s]) @ new"
    "\<forall>ms\<in>set (butlast new). \<exists>reply. chat model ms = Inr reply \<and> parse_reply loads reply = None"
    by auto
  have "\<forall>ms\<in>set (butlast (messages s # new)). \<exists>reply. chat model ms = Inr reply \<and> parse_reply loads reply = None"
    using new(2) retry(2,3) by (cases new) auto
  with new(1) show ?case by (intro exI[of _ "messages s # new"]) simp
qed auto

lemma jvr_appends_only_corrections:
  assumes "json_validated_response chat loads model s n = Some y"
  shows "\<exists>k. messages (snd y) = messages s @ replicate k correction_request"
  using assms
proof (induction rule: jvr_run_induct)
  case (retry s n reply y)
  then obtain k where "messages (snd y) = (messages s @ [correction_request]) @ replicate k correction_request"
    by auto
  then have "messages (snd y) = messages s @ replicate (Suc k) correction_request" by simp
  then show ?case by blast
qed auto

lemma str_index_prose:
  "ch \<notin> set prose \<Longrightarrow> str_index (prose @ ch # body) ch = Some (length prose)"
proof -
  assume a: "ch \<notin> set prose"
  then have "takeWhile (\<lambda>x. x \<noteq> ch) (prose @ ch # body) = prose"
    by (induction prose) auto
  then show ?thesis by (simp add: str_index_def)
qed

lemma parse_reply_prose:
  "CHR ''['' \<notin> set prose \<Longrightarrow> parse_reply loads (prose @ CHR ''['' # body) = loads (CHR ''['' # body)"
  by (simp add: parse_reply_def str_index_prose)

subsection \<open>The scanner of the model and its bound\<close>

text \<open>
  Every value that the scanner reads takes at least one character of the text.
\<close>

lemma skip_ws_length: "length (skip_ws s) \<le> length s"
  by (simp add: skip_ws_def length_dropWhile_le)

lemma skip_ws_Cons_length: "skip_ws s = c # r \<Longrightarrow> length r < length s"
  using skip_ws_length[of s] by simp

lemma scan_string_shorter:
  "scan_string s = Some (str, rest) \<Longrightarrow> length rest < length s"
proof (induction s arbitrary: str rest rule: scan_string.induct)
  case 1
  then show ?case by simp
next
  case (2 ch cs)
  show ?case
  proof (cases "ch = CHR 0x22")
    case True
    with 2(3) show ?thesis by simp
  next
    case q: False
    show ?thesis
    proof (cases "ch = CHR 0x5C")
      case True
      with q 2(3) obtain esc cs' char n str' where
        cs: "cs = esc # cs'" and e: "escape esc cs' = Some (char, n)"
        and r: "scan_string (drop n cs') = Some (str', rest)"
        by (auto split: list.splits option.splits)
      from 2(1)[OF q True cs e refl r, THEN less_imp_le] have "length rest \<le> length (drop n cs')"
        by simp
      then show ?thesis using cs by simp
    next
      case b: False
      with q 2(3) obtain str' where c: "\<not> is_control ch" and r: "scan_string cs = Some (str', rest)"
        by (auto split: option.splits if_splits)
      from 2(2)[OF q b c r] show ?thesis by simp
    qed
  qed
qed

lemma scan_atom_shorter:
  assumes "scan_atom py s = Some (v, rest)"
  shows "length rest < length s"
proof -
  have ne: "s \<noteq> []"
    using assms by (auto simp: scan_atom_def match_number_def integer_part_def Let_def split: if_splits)
  have m: "length rest' < length s" if "match_number s = Some (i, f, e, rest')" for i f e rest'
  proof -
    from that have "i \<noteq> []" "rest' = drop (length i + length f + length e) s"
      by (auto simp: match_number_def Let_def split: if_splits)
    then show ?thesis using ne by simp
  qed
  show ?thesis
    using assms ne m
    by (auto simp: scan_atom_def split: if_splits option.splits prod.splits)
qed

lemma skip_ws_less: "k < length (skip_ws s) \<Longrightarrow> k < length s"
  using skip_ws_length[of s] by simp

lemma scan_shorter:
  "(scan_once py n d s = Some (v, rest) \<longrightarrow> length rest < length s)
 \<and> (scan_items py n d s = Some (vs, rest) \<longrightarrow> length rest < length s)
 \<and> (scan_pairs py n d s = Some (ps, rest) \<longrightarrow> length rest < length s)"
proof (induction n arbitrary: d s v vs ps rest)
  case 0
  show ?case by simp
next
  case (Suc n)
  have IHo: "length rest < length s" if "scan_once py n d s = Some (v, rest)" for d s v rest
    using Suc that by blast
  have IHi: "length rest < length s" if "scan_items py n d s = Some (vs, rest)" for d s vs rest
    using Suc that by blast
  have IHp: "length rest < length s" if "scan_pairs py n d s = Some (ps, rest)" for d s ps rest
    using Suc that by blast
  have once: "length rest < length s" if "scan_once py (Suc n) d s = Some (v, rest)"
    using that
    by (auto split: list.splits if_splits nat.splits option.splits prod.splits
             dest!: scan_string_shorter skip_ws_Cons_length scan_atom_shorter IHi IHp)
  have items: "length rest < length s" if "scan_items py (Suc n) d s = Some (vs, rest)"
    using that
    by (auto split: list.splits if_splits option.splits prod.splits
             dest!: skip_ws_Cons_length IHo IHi skip_ws_less)
  have pairs: "length rest < length s" if "scan_pairs py (Suc n) d s = Some (ps, rest)"
    using that
    by (auto split: list.splits if_splits option.splits prod.splits
             dest!: scan_string_shorter skip_ws_Cons_length IHo IHp skip_ws_less)
  show ?case using once items pairs by blast
qed

lemma scan_once_shorter: "scan_once py n d s = Some (v, rest) \<Longrightarrow> length rest < length s"
  using scan_shorter by blast

text \<open>
  The bound on the number of calls does not decide any result: from one more than twice
  the length of the text on, every bound gives the same result. So \<open>raw_decode\<close> never
  fails for lack of it.
\<close>

lemma scan_fuel:
  "(2 * length s + 1 \<le> n \<longrightarrow> scan_once py (n + k) d s = scan_once py n d s)
 \<and> (2 * length s + 2 \<le> n \<longrightarrow> scan_items py (n + k) d s = scan_items py n d s)
 \<and> (2 * length s + 1 \<le> n \<longrightarrow> scan_pairs py (n + k) d s = scan_pairs py n d s)"
proof (induction n arbitrary: d s)
  case 0
  show ?case by simp
next
  case (Suc n)
  have IHo: "scan_once py (n + k) d s = scan_once py n d s" if "2 * length s + 1 \<le> n" for d s
    using Suc that by blast
  have IHi: "scan_items py (n + k) d s = scan_items py n d s" if "2 * length s + 2 \<le> n" for d s
    using Suc that by blast
  have IHp: "scan_pairs py (n + k) d s = scan_pairs py n d s" if "2 * length s + 1 \<le> n" for d s
    using Suc that by blast
  have once: "scan_once py (Suc n + k) d s = scan_once py (Suc n) d s" if b: "2 * length s + 1 \<le> Suc n"
  proof (cases s)
    case Nil
    then show ?thesis by simp
  next
    case (Cons ch cs)
    have i: "scan_items py (n + k) d' (c # r) = scan_items py n d' (c # r)" if "skip_ws cs = c # r" for d' c r
      using IHi[of "c # r" d'] skip_ws_length[of cs] that b Cons by simp
    have p: "scan_pairs py (n + k) d' r = scan_pairs py n d' r" if "skip_ws cs = c # r" for d' c r
      using IHp[of r d'] skip_ws_length[of cs] that b Cons by simp
    show ?thesis
      unfolding Cons by (simp add: i p split: list.splits nat.splits)
  qed
  have items: "scan_items py (Suc n + k) d s = scan_items py (Suc n) d s" if b: "2 * length s + 2 \<le> Suc n"
  proof -
    have o: "scan_once py (n + k) d s = scan_once py n d s"
      using IHo[of s d] b by simp
    have i: "scan_items py (n + k) d (skip_ws r') = scan_items py n d (skip_ws r')"
      if "scan_once py n d s = Some (v, r)" "skip_ws r = c # r'" for v r c r'
      using IHi[of "skip_ws r'" d] scan_once_shorter[OF that(1)] skip_ws_Cons_length[OF that(2)]
        skip_ws_length[of r'] b by simp
    show ?thesis
      by (simp add: o i split: option.splits list.splits)
  qed
  have pairs: "scan_pairs py (Suc n + k) d s = scan_pairs py (Suc n) d s" if b: "2 * length s + 1 \<le> Suc n"
  proof -
    have o: "scan_once py (n + k) d (skip_ws r1) = scan_once py n d (skip_ws r1)"
      if "scan_string s = Some (key, r)" "skip_ws r = c # r1" for key r c r1
      using IHo[of "skip_ws r1" d] scan_string_shorter[OF that(1)] skip_ws_Cons_length[OF that(2)]
        skip_ws_length[of r1] b by simp
    have p: "scan_pairs py (n + k) d r4 = scan_pairs py n d r4"
      if "scan_string s = Some (key, r)" "skip_ws r = c # r1"
        "scan_once py n d (skip_ws r1) = Some (v, r2)" "skip_ws r2 = c2 # r3" "skip_ws r3 = c3 # r4"
      for key r c r1 v r2 c2 r3 c3 r4
      using IHp[of r4 d] scan_string_shorter[OF that(1)] skip_ws_Cons_length[OF that(2)]
        skip_ws_length[of r1] scan_once_shorter[OF that(3)] skip_ws_Cons_length[OF that(4)]
        skip_ws_Cons_length[OF that(5)] b by simp
    show ?thesis
      by (simp add: o p split: option.splits list.splits)
  qed
  show ?case using once items pairs by blast
qed

lemma raw_decode_fuel:
  assumes "Suc (length s + length s) \<le> n"
  shows "scan_once py n (nesting_budget py) s = raw_decode py s"
proof -
  from assms obtain k where k: "n = Suc (length s + length s) + k"
    using le_Suc_ex by blast
  have "scan_once py (Suc (length s + length s) + k) (nesting_budget py) s
      = scan_once py (Suc (length s + length s)) (nesting_budget py) s"
    using scan_fuel[of s "Suc (length s + length s)" py k "nesting_budget py"] by simp
  then show ?thesis by (simp add: k raw_decode_def)
qed

text \<open>What the scanner reads at a \<^verbatim>\<open>[\<close> is an array.\<close>

lemma raw_decode_array:
  assumes "raw_decode py (CHR ''['' # body) = Some (v, rest)"
  shows "\<exists>values. v = JArray values"
  using assms
  by (auto simp: raw_decode_def split: nat.splits list.splits if_splits option.splits)

subsection \<open>The claims on \<^verbatim>\<open>json_validated_response\<close>\<close>

text \<open>
  Claim C2. With budget 0 the function raises at once and no exchange takes place. With
  a budget \<open>n > 0\<close> it always returns, after at least one and at most \<open>n + 1\<close>
  exchanges; when every reply is unparseable it raises the exhaustion error, after
  exactly \<open>n\<close> exchanges. With budget \<open>-1\<close> no run ends in the exhaustion error, and
  when every reply is unparseable the function does not return at all.
\<close>

theorem retry_budget:
  "json_validated_response chat loads model s 0 = Some (Inl ExhaustedRetries, s)
   \<and> (0 < n \<longrightarrow>
        (\<exists>r s'. json_validated_response chat loads model s n = Some (r, s')
           \<and> length (sent s) < length (sent s')
           \<and> length (sent s') \<le> length (sent s) + nat n + 1))
   \<and> (0 < n \<and> (\<forall>ms. \<exists>reply. chat model ms = Inr reply \<and> parse_reply loads reply = None) \<longrightarrow>
        (\<exists>s'. json_validated_response chat loads model s n = Some (Inl ExhaustedRetries, s')
           \<and> length (sent s') = length (sent s) + nat n))
   \<and> (\<forall>y. json_validated_response chat loads model s (- 1) = Some y \<longrightarrow> fst y \<noteq> Inl ExhaustedRetries)
   \<and> ((\<forall>ms. \<exists>reply. chat model ms = Inr reply \<and> parse_reply loads reply = None) \<longrightarrow>
        json_validated_response chat loads model s (- 1) = None)"
proof (intro conjI impI allI)
  show "json_validated_response chat loads model s 0 = Some (Inl ExhaustedRetries, s)"
    by (rule jvr_zero)
next
  assume "0 < n"
  then obtain k where k: "n = int (Suc k)"
    by (metis nat_0_iff not_less not_less_iff_gr_or_eq old.nat.exhaust zero_less_imp_eq_int int_nat_eq order_less_imp_le)
  from jvr_positive_returns[of chat loads model s k] obtain r s' where
    "json_validated_response chat loads model s (int (Suc k)) = Some (r, s')"
    "length (sent s) < length (sent s')" "length (sent s') \<le> length (sent s) + Suc k"
    by blast
  then show "\<exists>r s'. json_validated_response chat loads model s n = Some (r, s')
           \<and> length (sent s) < length (sent s')
           \<and> length (sent s') \<le> length (sent s) + nat n + 1"
    unfolding k by (intro exI[of _ r] exI[of _ s']) simp
next
  assume a: "0 < n \<and> (\<forall>ms. \<exists>reply. chat model ms = Inr reply \<and> parse_reply loads reply = None)"
  then have n: "n = int (nat n)" by simp
  from a jvr_all_unparseable[of chat model loads s "nat n"]
  show "\<exists>s'. json_validated_response chat loads model s n = Some (Inl ExhaustedRetries, s')
           \<and> length (sent s') = length (sent s) + nat n"
    using n by simp
next
  fix y assume "json_validated_response chat loads model s (- 1) = Some y"
  from jvr_negative_never_exhausted[OF this] show "fst y \<noteq> Inl ExhaustedRetries" by simp
next
  assume "\<forall>ms. \<exists>reply. chat model ms = Inr reply \<and> parse_reply loads reply = None"
  then show "json_validated_response chat loads model s (- 1) = None"
    by (rule jvr_unlimited_diverges) simp
qed

text \<open>Witness for C2: a model that always answers in prose, with budgets 0, 2 and -1.\<close>

theorem retry_budget_witness:
  "json_validated_response (always_reply ''I cannot help'') (json_loads cpython_defaults) ''llama3.2:latest''
     \<lparr>messages = [Message ''system'' ''sys'', Message ''user'' ''fix''], sent = []\<rparr> 0
   = Some (Inl ExhaustedRetries, \<lparr>messages = [Message ''system'' ''sys'', Message ''user'' ''fix''], sent = []\<rparr>)
   \<and> json_validated_response (always_reply ''I cannot help'') (json_loads cpython_defaults) ''llama3.2:latest''
       \<lparr>messages = [Message ''system'' ''sys'', Message ''user'' ''fix''], sent = []\<rparr> 2
     = Some (Inl ExhaustedRetries,
         \<lparr>messages = [Message ''system'' ''sys'', Message ''user'' ''fix'', correction_request, correction_request],
          sent = [[Message ''system'' ''sys'', Message ''user'' ''fix''],
                  [Message ''system'' ''sys'', Message ''user'' ''fix'', correction_request]]\<rparr>)
   \<and> json_validated_response (always_reply ''I cannot help'') (json_loads cpython_defaults) ''llama3.2:latest''
       \<lparr>messages = [Message ''system'' ''sys'', Message ''user'' ''fix''], sent = []\<rparr> (- 1)
     = None"
proof -
  let ?s = "\<lparr>messages = [Message ''system'' ''sys'', Message ''user'' ''fix''], sent = []\<rparr>"
  have u: "\<forall>ms. \<exists>reply. always_reply ''I cannot help'' ''llama3.2:latest'' ms = Inr reply
             \<and> parse_reply (json_loads cpython_defaults) reply = None"
    by (simp add: always_reply_def parse_reply_def str_index_def)
  have two: "json_validated_response (always_reply ''I cannot help'') (json_loads cpython_defaults) ''llama3.2:latest'' ?s 2
     = Some (Inl ExhaustedRetries,
         \<lparr>messages = [Message ''system'' ''sys'', Message ''user'' ''fix'', correction_request, correction_request],
          sent = [[Message ''system'' ''sys'', Message ''user'' ''fix''],
                  [Message ''system'' ''sys'', Message ''user'' ''fix'', correction_request]]\<rparr>)"
    by (simp add: json_validated_response.simps always_reply_def parse_reply_def str_index_def)
  from retry_budget[where chat = "always_reply ''I cannot help''" and loads = "json_loads cpython_defaults"
      and model = "''llama3.2:latest''" and s = ?s and n = 2] u two
  show ?thesis by blast
qed

text \<open>
  Claim C3. When the chat call raises, in whatever iteration, the function raises that
  error at once: the conversation is as it was (no correction request was appended)
  and the failed call is the last entry of the log. Seen over a whole run: every
  exchange but the last returned a reply that did not parse, so an exchange that
  raised is never followed by another one.
\<close>

theorem chat_error_propagates:
  "(nb_retry \<noteq> 0 \<and> chat model (messages s) = Inl e \<longrightarrow>
      json_validated_response chat loads model s nb_retry
        = Some (Inl (TransportFailure e), s\<lparr>sent := sent s @ [messages s]\<rparr>))
   \<and> (\<forall>y. json_validated_response chat loads model s nb_retry = Some y \<longrightarrow>
        (\<exists>new. sent (snd y) = sent s @ new
           \<and> (\<forall>ms\<in>set (butlast new). \<exists>reply. chat model ms = Inr reply \<and> parse_reply loads reply = None)))"
  using jvr_chat_error[of nb_retry chat model s e loads]
    jvr_only_last_exchange_fails[of chat loads model s nb_retry]
  by blast

text \<open>Witness for C3: the first call fails with budget 3; one exchange, no retry.\<close>

theorem chat_error_propagates_witness:
  "json_validated_response (always_fails ''connection refused'') (json_loads cpython_defaults) ''llama3.2:latest''
     \<lparr>messages = [Message ''system'' ''sys'', Message ''user'' ''fix''], sent = []\<rparr> 3
   = Some (Inl (TransportFailure ''connection refused''),
       \<lparr>messages = [Message ''system'' ''sys'', Message ''user'' ''fix''],
        sent = [[Message ''system'' ''sys'', Message ''user'' ''fix'']]\<rparr>)"
  using chat_error_propagates[where chat = "always_fails ''connection refused''" and loads = "json_loads cpython_defaults"
      and model = "''llama3.2:latest''" and nb_retry = 3 and e = "''connection refused''"
      and s = "\<lparr>messages = [Message ''system'' ''sys'', Message ''user'' ''fix''], sent = []\<rparr>"]
  by (simp add: always_fails_def)

text \<open>
  Claim C4, as the code has it. Let the reply be some prose without \<^verbatim>\<open>[\<close> followed by
  a slice that starts with \<^verbatim>\<open>[\<close>, and let \<open>raw\<close> be the scanner of the decoder, whatever
  it does.
  \<^item> When the scanner reads a value \<open>v\<close> at the start of the slice and \<open>trailing\<close>, the
    text after the value, is white space only, the function returns \<open>v\<close>.
  \<^item> When anything else follows the value, \<^verbatim>\<open>json.loads\<close> rejects the slice and the
    reply is handled as unparseable: a correction request is appended and the loop goes
    on, the budget decremented if it is positive.
  \<^item> The same happens when the scanner raises on the slice.
\<close>

theorem array_after_prose:
  assumes "nb_retry \<noteq> 0"
    and "chat model (messages s) = Inr (prose @ CHR ''['' # body)"
    and "CHR ''['' \<notin> set prose"
  shows "(raw (CHR ''['' # body) = Some (v, trailing) \<and> skip_ws trailing = [] \<longrightarrow>
            json_validated_response chat (decode raw) model s nb_retry
              = Some (Inr v, s\<lparr>sent := sent s @ [messages s]\<rparr>))
       \<and> (raw (CHR ''['' # body) = Some (v, trailing) \<and> skip_ws trailing \<noteq> [] \<longrightarrow>
            parse_reply (decode raw) (prose @ CHR ''['' # body) = None
          \<and> json_validated_response chat (decode raw) model s nb_retry
              = json_validated_response chat (decode raw) model
                  (s\<lparr>messages := messages s @ [correction_request], sent := sent s @ [messages s]\<rparr>)
                  (if nb_retry > 0 then nb_retry - 1 else nb_retry))
       \<and> (raw (CHR ''['' # body) = None \<longrightarrow>
            parse_reply (decode raw) (prose @ CHR ''['' # body) = None
          \<and> json_validated_response chat (decode raw) model s nb_retry
              = json_validated_response chat (decode raw) model
                  (s\<lparr>messages := messages s @ [correction_request], sent := sent s @ [messages s]\<rparr>)
                  (if nb_retry > 0 then nb_retry - 1 else nb_retry))"
proof -
  let ?reply = "prose @ CHR ''['' # body"
  have sk: "skip_ws (CHR ''['' # body) = CHR ''['' # body"
    by (simp add: skip_ws_def is_ws_def)
  have p: "parse_reply (decode raw) ?reply = decode raw (CHR ''['' # body)"
    using assms(3) by (rule parse_reply_prose)
  have good: "parse_reply (decode raw) ?reply = Some v"
    if "raw (CHR ''['' # body) = Some (v, trailing)" "skip_ws trailing = []"
    using that by (simp add: p decode_def sk)
  have extra: "parse_reply (decode raw) ?reply = None"
    if "raw (CHR ''['' # body) = Some (v, trailing)" "skip_ws trailing \<noteq> []"
    using that by (simp add: p decode_def sk)
  have raised: "parse_reply (decode raw) ?reply = None"
    if "raw (CHR ''['' # body) = None"
    using that by (simp add: p decode_def sk)
  have retry: "json_validated_response chat (decode raw) model s nb_retry
              = json_validated_response chat (decode raw) model
                  (s\<lparr>messages := messages s @ [correction_request], sent := sent s @ [messages s]\<rparr>)
                  (if nb_retry > 0 then nb_retry - 1 else nb_retry)"
    if "parse_reply (decode raw) ?reply = None"
    using jvr_retry[where chat = chat and model = model and s = s and nb_retry = nb_retry
        and loads = "decode raw" and reply = ?reply] assms(1,2) that by simp
  have returns: "json_validated_response chat (decode raw) model s nb_retry
              = Some (Inr v, s\<lparr>sent := sent s @ [messages s]\<rparr>)"
    if "parse_reply (decode raw) ?reply = Some v"
    using jvr_parsed[where chat = chat and model = model and s = s and nb_retry = nb_retry
        and loads = "decode raw" and v = v and reply = ?reply] assms(1,2) that by simp
  show ?thesis
    using good extra raised retry returns by blast
qed

text \<open>
  Witness for C4, one run for each case, with the scanner of the model in the default
  interpreter: the reply of the specification's scenario, with leading prose and a
  trailing blank and newline, is returned; a reply with commentary after the array and
  a reply whose array is not closed each use up a budget of one retry.
\<close>

theorem array_after_prose_witness:
  "json_validated_response
     (always_reply (''Sure! Here you go:'' @ nl @ ''[{\"explanation\":\"fix\"}] '' @ nl))
     (json_loads cpython_defaults) ''llama3.2:latest''
     \<lparr>messages = [Message ''system'' ''sys'', Message ''user'' ''fix''], sent = []\<rparr> (- 1)
   = Some (Inr (JArray [JObject [(code_points ''explanation'', JString (code_points ''fix''))]]),
       \<lparr>messages = [Message ''system'' ''sys'', Message ''user'' ''fix''],
        sent = [[Message ''system'' ''sys'', Message ''user'' ''fix'']]\<rparr>)
   \<and> json_validated_response
       (always_reply ''Done: [1.5, 2] as asked'')
       (json_loads cpython_defaults) ''llama3.2:latest''
       \<lparr>messages = [Message ''system'' ''sys'', Message ''user'' ''fix''], sent = []\<rparr> 1
     = Some (Inl ExhaustedRetries,
         \<lparr>messages = [Message ''system'' ''sys'', Message ''user'' ''fix'', correction_request],
          sent = [[Message ''system'' ''sys'', Message ''user'' ''fix'']]\<rparr>)
   \<and> json_validated_response
       (always_reply ''Done: [1.5, 2'')
       (json_loads cpython_defaults) ''llama3.2:latest''
       \<lparr>messages = [Message ''system'' ''sys'', Message ''user'' ''fix''], sent = []\<rparr> 1
     = Some (Inl ExhaustedRetries,
         \<lparr>messages = [Message ''system'' ''sys'', Message ''user'' ''fix'', correction_request],
          sent = [[Message ''system'' ''sys'', Message ''user'' ''fix'']]\<rparr>)"
proof -
  let ?s = "\<lparr>messages = [Message ''system'' ''sys'', Message ''user'' ''fix''], sent = []\<rparr>"
  let ?raw = "raw_decode cpython_defaults"
  let ?good = "always_reply (''Sure! Here you go:'' @ nl @ ''[{\"explanation\":\"fix\"}] '' @ nl)"
  let ?extra = "always_reply ''Done: [1.5, 2] as asked''"
  let ?open = "always_reply ''Done: [1.5, 2''"
  have n: "(- 1 :: int) \<noteq> 0" "(1 :: int) \<noteq> 0" by simp_all
  have c1: "?good ''llama3.2:latest'' (messages ?s)
         = Inr ((''Sure! Here you go:'' @ nl) @ CHR ''['' # (''{\"explanation\":\"fix\"}] '' @ nl))"
    by (simp add: always_reply_def)
  have p1: "CHR ''['' \<notin> set (''Sure! Here you go:'' @ nl)"
    by (simp add: nl_def)
  have d1: "?raw (CHR ''['' # (''{\"explanation\":\"fix\"}] '' @ nl))
         = Some (JArray [JObject [(code_points ''explanation'', JString (code_points ''fix''))]], '' '' @ nl)"
    by (simp add: json_defs nl_def)
  have w1: "skip_ws ('' '' @ nl) = []"
    by (simp add: skip_ws_def is_ws_def nl_def)
  have c2: "?extra ''llama3.2:latest'' (messages ?s) = Inr (''Done: '' @ CHR ''['' # ''1.5, 2] as asked'')"
    by (simp add: always_reply_def)
  have p2: "CHR ''['' \<notin> set ''Done: ''"
    by simp
  have d2: "?raw (CHR ''['' # ''1.5, 2] as asked'') = Some (JArray [JFloat ''1.5'', JInt 2], '' as asked'')"
    by (simp add: json_defs)
  have w2: "skip_ws '' as asked'' \<noteq> []"
    by (simp add: skip_ws_def is_ws_def)
  have c3: "?open ''llama3.2:latest'' (messages ?s) = Inr (''Done: '' @ CHR ''['' # ''1.5, 2'')"
    by (simp add: always_reply_def)
  have d3: "?raw (CHR ''['' # ''1.5, 2'') = None"
    by (simp add: json_defs)
  have z: "json_validated_response chat (decode ?raw) ''llama3.2:latest'' t 0 = Some (Inl ExhaustedRetries, t)"
    for chat t by (rule jvr_zero)
  from array_after_prose[where chat = ?good and model = "''llama3.2:latest''" and s = ?s
      and nb_retry = "- 1" and prose = "''Sure! Here you go:'' @ nl"
      and body = "''{\"explanation\":\"fix\"}] '' @ nl" and raw = ?raw
      and v = "JArray [JObject [(code_points ''explanation'', JString (code_points ''fix''))]]"
      and trailing = "'' '' @ nl", OF n(1) c1 p1]
    d1 w1
  have r1: "json_validated_response ?good (decode ?raw) ''llama3.2:latest'' ?s (- 1)
     = Some (Inr (JArray [JObject [(code_points ''explanation'', JString (code_points ''fix''))]]),
         \<lparr>messages = [Message ''system'' ''sys'', Message ''user'' ''fix''],
          sent = [[Message ''system'' ''sys'', Message ''user'' ''fix'']]\<rparr>)"
    by simp
  from array_after_prose[where chat = ?extra and model = "''llama3.2:latest''" and s = ?s
      and nb_retry = 1 and prose = "''Done: ''" and body = "''1.5, 2] as asked''" and raw = ?raw
      and v = "JArray [JFloat ''1.5'', JInt 2]" and trailing = "'' as asked''", OF n(2) c2 p2]
    d2 w2
  have r2: "json_validated_response ?extra (decode ?raw) ''llama3.2:latest'' ?s 1
     = Some (Inl ExhaustedRetries,
         \<lparr>messages = [Message ''system'' ''sys'', Message ''user'' ''fix'', correction_request],
          sent = [[Message ''system'' ''sys'', Message ''user'' ''fix'']]\<rparr>)"
    by (simp add: z)
  from array_after_prose[where chat = ?open and model = "''llama3.2:latest''" and s = ?s
      and nb_retry = 1 and prose = "''Done: ''" and body = "''1.5, 2''" and raw = ?raw, OF n(2) c3 p2]
    d3
  have r3: "json_validated_response ?open (decode ?raw) ''llama3.2:latest'' ?s 1
     = Some (Inl ExhaustedRetries,
         \<lparr>messages = [Message ''system'' ''sys'', Message ''user'' ''fix'', correction_request],
          sent = [[Message ''system'' ''sys'', Message ''user'' ''fix'']]\<rparr>)"
    by (simp add: z)
  show ?thesis
    using r1 r2 r3 by (simp add: json_loads_def)
qed

text \<open>
  Counterexample to C4 as stated: the reply holds a balanced array at its first \<^verbatim>\<open>[\<close>,
  followed by commentary. The scanner reads the array, \<^verbatim>\<open>json.loads\<close> raises all the
  same, and the function does not return the array; with budget 1 it raises the
  exhaustion error.
\<close>

theorem trailing_commentary_rejected:
  "raw_decode cpython_defaults ''[{\"explanation\":\"fix\"}] Hope this helps!''
     = Some (JArray [JObject [(code_points ''explanation'', JString (code_points ''fix''))]], '' Hope this helps!'')
   \<and> json_loads cpython_defaults ''[{\"explanation\":\"fix\"}] Hope this helps!'' = None
   \<and> json_validated_response
       (always_reply ''Sure! [{\"explanation\":\"fix\"}] Hope this helps!'')
       (json_loads cpython_defaults) ''llama3.2:latest''
       \<lparr>messages = [Message ''system'' ''sys'', Message ''user'' ''fix''], sent = []\<rparr> 1
     = Some (Inl ExhaustedRetries,
         \<lparr>messages = [Message ''system'' ''sys'', Message ''user'' ''fix'', correction_request],
          sent = [[Message ''system'' ''sys'', Message ''user'' ''fix'']]\<rparr>)"
proof -
  have d: "raw_decode cpython_defaults ''[{\"explanation\":\"fix\"}] Hope this helps!''
     = Some (JArray [JObject [(code_points ''explanation'', JString (code_points ''fix''))]], '' Hope this helps!'')"
    by (simp add: json_defs)
  have sk: "skip_ws ''[{\"explanation\":\"fix\"}] Hope this helps!'' = ''[{\"explanation\":\"fix\"}] Hope this helps!''"
    by (simp add: skip_ws_def is_ws_def)
  have tr: "skip_ws '' Hope this helps!'' \<noteq> []"
    by (simp add: skip_ws_def is_ws_def)
  have l: "json_loads cpython_defaults ''[{\"explanation\":\"fix\"}] Hope this helps!'' = None"
    by (simp only: json_loads_def decode_def sk d tr option.case prod.case if_False)
  have p: "parse_reply (json_loads cpython_defaults) ''Sure! [{\"explanation\":\"fix\"}] Hope this helps!'' = None"
    by (simp add: parse_reply_def str_index_def l)
  show ?thesis
    using d l by (simp add: json_validated_response.simps always_reply_def p)
qed

text \<open>
  Claim C5 evaluated on the code of \<^verbatim>\<open>wolverine/wolverine.py\<close>: after an unparseable
  reply, the conversation sent on the retry holds the correction request but not the
  reply; no assistant turn is ever appended.
\<close>

theorem retry_conversation_lacks_assistant_turn:
  "json_validated_response (always_reply ''I cannot help'') (json_loads cpython_defaults) ''llama3.2:latest''
     \<lparr>messages = [Message ''system'' ''sys'', Message ''user'' ''fix''], sent = []\<rparr> 2
   = Some (Inl ExhaustedRetries,
       \<lparr>messages = [Message ''system'' ''sys'', Message ''user'' ''fix'', correction_request, correction_request],
        sent = [[Message ''system'' ''sys'', Message ''user'' ''fix''],
                [Message ''system'' ''sys'', Message ''user'' ''fix'', correction_request]]\<rparr>)"
  by (simp add: json_validated_response.simps always_reply_def parse_reply_def str_index_def)

subsection \<open>The variant of the second file\<close>

text \<open>
  On the same input the variant of \<^verbatim>\<open>tests/test_wolverine.py\<close> sends, on the retry, the
  reply as an assistant turn followed by the correction request.
\<close>

lemma test_variant_appends_assistant_turn:
  "test_json_validated_response (always_reply ''I cannot help'' ''llama3.2:latest'') (json_loads cpython_defaults) ''llama3.2:latest''
     \<lparr>messages = [Message ''system'' ''sys'', Message ''user'' ''fix''], sent = []\<rparr> 2
   = Some (Inl ExhaustedRetries,
       \<lparr>messages = [Message ''system'' ''sys'', Message ''user'' ''fix'',
                    Message ''assistant'' ''I cannot help'', test_correction_request,
                    Message ''assistant'' ''I cannot help'', test_correction_request],
        sent = [[Message ''system'' ''sys'', Message ''user'' ''fix''],
                [Message ''system'' ''sys'', Message ''user'' ''fix'',
                 Message ''assistant'' ''I cannot help'', test_correction_request]]\<rparr>)"
  by (simp add: test_json_validated_response.simps always_reply_def parse_reply_def str_index_def)

end
